theory Spec2Isabelle
  imports Complex_Main "HOL-Library.AList"
begin

section \<open>JavaScript values\<close>

text \<open>
  The values that flow from the parsed YAML configuration and from the JSON issues into the
  produced field set. JSON has no NaN, so a number is a real. \<open>JMember k\<close> is the member
  that every plain object inherits under the name \<open>k\<close> (see below), \<open>JArray\<close> is an
  array, as the value of a custom field with several values is. \<open>truthy\<close> is JavaScript's
  ToBoolean on these values, \<open>js_or\<close> is the operator \<^verbatim>\<open>a || b\<close>.
\<close>

datatype jsval =
    JUndefined | JNull | JBool bool | JNum real | JStr string | JMember string
  | JArray "jsval list"

fun truthy :: "jsval \<Rightarrow> bool" where
  "truthy JUndefined = False"
| "truthy JNull = False"
| "truthy (JBool b) = b"
| "truthy (JNum n) = (n \<noteq> 0)"
| "truthy (JStr s) = (s \<noteq> [])"
| "truthy (JMember k) = True"
| "truthy (JArray xs) = True"

definition js_or :: "jsval \<Rightarrow> jsval \<Rightarrow> jsval" where
  "js_or a b = (if truthy a then a else b)"

text \<open>
  The tables of the configuration are plain objects, and \<^verbatim>\<open>table[key]\<close> also finds what
  a plain object inherits from \<^verbatim>\<open>Object.prototype\<close>: under each of the names below a
  built-in function, and under \<^verbatim>\<open>__proto__\<close> the prototype itself. All of them are
  truthy. \<open>member_text\<close> is such a member as a string, which is what it becomes as a
  property key and inside a template literal.
\<close>

definition object_prototype_names :: "string list" where
  "object_prototype_names =
     [''constructor'', ''__defineGetter__'', ''__defineSetter__'', ''hasOwnProperty'',
      ''__lookupGetter__'', ''__lookupSetter__'', ''isPrototypeOf'', ''propertyIsEnumerable'',
      ''toString'', ''valueOf'', ''__proto__'', ''toLocaleString'']"

definition inherited :: "string \<Rightarrow> bool" where
  "inherited k = (k \<in> set object_prototype_names)"

definition member_text :: "string \<Rightarrow> string" where
  "member_text k =
     (if k = ''__proto__'' then ''[object Object]''
      else ''function '' @ (if k = ''constructor'' then ''Object'' else k)
             @ ''() { [native code] }'')"

text \<open>
  What a lookup in a table of strings gives: nothing, a string of the file, or an inherited
  member; as a value, as a string, and under \<^verbatim>\<open>a || b\<close>.
\<close>

datatype lookup = Undefined | Text string | Member string

definition value_of :: "lookup \<Rightarrow> jsval" where
  "value_of x = (case x of Undefined \<Rightarrow> JUndefined | Text s \<Rightarrow> JStr s | Member k \<Rightarrow> JMember k)"

definition text_of :: "lookup \<Rightarrow> string" where
  "text_of x = (case x of Undefined \<Rightarrow> ''undefined'' | Text s \<Rightarrow> s | Member k \<Rightarrow> member_text k)"

definition lookup_or :: "lookup \<Rightarrow> lookup \<Rightarrow> lookup" where
  "lookup_or a b = (if truthy (value_of a) then a else b)"

text \<open>An optional string or number of a JSON object, read as a JavaScript value
  (a missing or null property is \<open>None\<close>).\<close>

definition str :: "string option \<Rightarrow> jsval" where
  "str s = (case s of None \<Rightarrow> JUndefined | Some x \<Rightarrow> JStr x)"

definition num :: "real option \<Rightarrow> jsval" where
  "num n = (case n of None \<Rightarrow> JUndefined | Some x \<Rightarrow> JNum x)"

text \<open>\<^verbatim>\<open>a || b\<close> on an optional string with a string default.\<close>

definition str_or :: "string option \<Rightarrow> string \<Rightarrow> string" where
  "str_or a b = (case a of None \<Rightarrow> b | Some x \<Rightarrow> if x \<noteq> [] then x else b)"

text \<open>Decimal rendering of an integer inside a template literal.\<close>

fun show_nat :: "nat \<Rightarrow> string" where
  "show_nat n =
     (if n < 10 then [char_of (48 + n)]
      else show_nat (n div 10) @ [char_of (48 + n mod 10)])"

definition show_int :: "int \<Rightarrow> string" where
  "show_int i = (if i < 0 then CHR ''-'' # show_nat (nat (- i)) else show_nat (nat i))"

section \<open>Configuration (field-mapping.yaml)\<close>

text \<open>
  A YAML table is a map from the keys of the file to their values; a table that the file
  does not have is \<open>None\<close>, which is what \<^verbatim>\<open>this.config.table?.[key]\<close> guards
  against. The key \<open>default\<close> lives in the same table as the other keys. The values of
  the tables of names are strings, those of the priority table and of the options are any
  scalars, and the batch size, which drives a counting loop, is an integer.

  \<open>member_property cfg k s\<close> is the property \<open>s\<close> of the member that the tables inherit
  under the name \<open>k\<close>. The code reaches it as
  \<^verbatim>\<open>this.config.status_mappings[workItemType][redmineStatus]\<close> when the work-item type
  carries such a name and has no table of its own. The JavaScript engine decides it, not the
  file, so it is a parameter here. (Reading \<^verbatim>\<open>caller\<close> or \<^verbatim>\<open>arguments\<close> of a
  built-in function throws; like a configuration that does not parse, a configuration with
  such a work-item type and a status of that name is outside what this theory describes.)
\<close>

type_synonym 'v table = "string \<rightharpoonup> 'v"

record options =
  preserve_redmine_id :: jsval
  add_redmine_link :: jsval
  migrate_attachments :: jsval
  migrate_comments :: jsval
  migrate_relations :: jsval
  migrate_subtasks :: jsval
  delay_ms :: jsval
  batch_size :: "int option"

record config =
  work_item_types :: "string table option"
  status_mappings :: "string table table option"
  priority_mappings :: "jsval table option"
  relation_mappings :: "string table option"
  custom_field_mappings :: "string table option"
  migration_options :: "options option"
  member_property :: "string \<Rightarrow> string \<Rightarrow> jsval"

text \<open>\<^verbatim>\<open>this.config.migration_options?.field\<close>\<close>

definition option_field :: "config \<Rightarrow> (options \<Rightarrow> jsval) \<Rightarrow> jsval" where
  "option_field cfg f = (case migration_options cfg of None \<Rightarrow> JUndefined | Some opts \<Rightarrow> f opts)"

section \<open>Source records (Redmine issues)\<close>

text \<open>
  The JSON objects of the source system, with the property names of the source where they
  can be kept: \<open>id'\<close> is \<^verbatim>\<open>id\<close>, \<open>ref_id\<close> and \<open>name\<close> are the \<^verbatim>\<open>id\<close> and
  \<^verbatim>\<open>name\<close> of a nested object such as \<^verbatim>\<open>issue.tracker\<close>, \<open>cf_name\<close> and
  \<open>cf_value\<close> are the \<^verbatim>\<open>name\<close> and \<^verbatim>\<open>value\<close> of a custom field, and the
  properties of a journal and of its details carry the prefixes \<open>j_\<close> and \<open>d_\<close>. A
  property that is missing or null is \<open>None\<close>. The value of a custom field is a string,
  an array of strings when the field has several values, or undefined.
\<close>

record named =
  ref_id :: "int option"
  name :: "string option"

record custom_field =
  cf_name :: string
  cf_value :: jsval

record relation =
  issue_id :: "int option"
  issue_to_id :: "int option"
  relation_type :: string

record detail =
  d_name :: "string option"
  old_value :: "string option"
  new_value :: "string option"

record journal =
  j_created_on :: "string option"
  j_user :: "named option"
  j_notes :: "string option"
  j_details :: "detail list option"

record attachment =
  filename :: string
  content_url :: string

record issue =
  id' :: int
  subject :: "string option"
  description :: "string option"
  tracker :: "named option"
  status :: "named option"
  priority :: "named option"
  assigned_to :: "named option"
  start_date :: "string option"
  due_date :: "string option"
  created_on :: "string option"
  updated_on :: "string option"
  closed_on :: "string option"
  estimated_hours :: "real option"
  done_ratio :: "real option"
  custom_fields :: "custom_field list option"
  journals :: "journal list option"
  attachments :: "attachment list option"
  relations :: "relation list option"
  parent :: "named option"

text \<open>\<^verbatim>\<open>obj?.name\<close>\<close>

definition name_of :: "named option \<Rightarrow> string option" where
  "name_of r = (case r of None \<Rightarrow> None | Some x \<Rightarrow> name x)"

section \<open>FieldMapper (field-mapper.js)\<close>

text \<open>\<^verbatim>\<open>table?.[key]\<close> on a table of strings and on a table of values, with the
  inherited members.\<close>

definition get_name :: "string table option \<Rightarrow> string \<Rightarrow> lookup" where
  "get_name t k =
     (case t of
        None \<Rightarrow> Undefined
      | Some m \<Rightarrow> (case m k of
                    Some v \<Rightarrow> Text v
                  | None \<Rightarrow> if inherited k then Member k else Undefined))"

definition get_value :: "jsval table option \<Rightarrow> string \<Rightarrow> jsval" where
  "get_value t k =
     (case t of
        None \<Rightarrow> JUndefined
      | Some m \<Rightarrow> (case m k of
                    Some v \<Rightarrow> v
                  | None \<Rightarrow> if inherited k then JMember k else JUndefined))"

definition mapWorkItemType :: "config \<Rightarrow> string \<Rightarrow> lookup" where
  "mapWorkItemType cfg redmineTracker =
     lookup_or (get_name (work_item_types cfg) redmineTracker)
       (lookup_or (get_name (work_item_types cfg) ''default'') (Text ''Issue''))"

text \<open>
  \<^verbatim>\<open>mappings && mappings[redmineStatus]\<close>, where \<^verbatim>\<open>mappings\<close> is
  \<^verbatim>\<open>this.config.status_mappings?.[key]\<close>: a table of the file, an inherited member, or
  nothing.
\<close>

definition status_property :: "config \<Rightarrow> string \<Rightarrow> string \<Rightarrow> jsval" where
  "status_property cfg key redmineStatus =
     (case status_mappings cfg of
        None \<Rightarrow> JUndefined
      | Some sm \<Rightarrow>
          (case sm key of
             Some mappings \<Rightarrow> value_of (get_name (Some mappings) redmineStatus)
           | None \<Rightarrow> if inherited key then member_property cfg key redmineStatus
                     else JUndefined))"

definition mapStatus :: "config \<Rightarrow> string \<Rightarrow> lookup \<Rightarrow> jsval" where
  "mapStatus cfg redmineStatus workItemType =
     (if truthy (status_property cfg (text_of workItemType) redmineStatus)
      then status_property cfg (text_of workItemType) redmineStatus
      else if truthy (status_property cfg ''default'' redmineStatus)
      then status_property cfg ''default'' redmineStatus
      else JStr ''New'')"

definition mapPriority :: "config \<Rightarrow> string \<Rightarrow> jsval" where
  "mapPriority cfg redminePriority =
     (let mapping = get_value (priority_mappings cfg) redminePriority in
      if truthy mapping then mapping
      else js_or (get_value (priority_mappings cfg) ''default'') (JNum 3))"

definition mapRelationType :: "config \<Rightarrow> string \<Rightarrow> lookup" where
  "mapRelationType cfg redmineRelationType =
     lookup_or (get_name (relation_mappings cfg) redmineRelationType)
       (Text ''System.LinkTypes.Related'')"

text \<open>
  The field set is a JavaScript object: assigning to a key that exists replaces its value in
  place, assigning to a new key appends it. That is \<open>AList.update\<close>. An assignment under
  a key that is computed is \<open>set_field\<close>: under the key \<^verbatim>\<open>__proto__\<close> it goes to the
  inherited setter and gives the field set no key.
\<close>

type_synonym fields = "(string \<times> jsval) list"

definition set_field :: "string \<Rightarrow> jsval \<Rightarrow> fields \<Rightarrow> fields" where
  "set_field k v fs = (if k = ''__proto__'' then fs else AList.update k v fs)"

text \<open>\<^verbatim>\<open>if (c) { fields[k] = v; }\<close>\<close>

definition assign_if :: "bool \<Rightarrow> string \<Rightarrow> jsval \<Rightarrow> fields \<Rightarrow> fields" where
  "assign_if c k v fs = (if c then AList.update k v fs else fs)"

text \<open>The description banner; \<open>redmine_url\<close> is the environment variable REDMINE\_URL.\<close>

definition compose_description :: "config \<Rightarrow> string option \<Rightarrow> issue \<Rightarrow> string" where
  "compose_description cfg redmine_url issue =
     (let d0 = [];
          d1 = (if truthy (option_field cfg preserve_redmine_id)
                then d0 @ ''<b>Migrated from Redmine Issue #'' @ show_int (id' issue) @ ''</b><br/>''
                else d0);
          d2 = (if truthy (option_field cfg add_redmine_link) \<and> id' issue \<noteq> 0
                then (let redmineUrl = str_or redmine_url [] @ ''/issues/'' @ show_int (id' issue) in
                      d1 @ ''<b>Original URL:</b> <a href=\"'' @ redmineUrl @ ''\">'' @ redmineUrl
                         @ ''</a><br/><br/>'' @ ''<hr/><br/>'')
                else d1)
      in if truthy (str (description issue)) then d2 @ the (description issue) else d2)"

text \<open>One round of the loop over \<^verbatim>\<open>issue.custom_fields\<close>.\<close>

definition copy_custom_field :: "config \<Rightarrow> fields \<Rightarrow> custom_field \<Rightarrow> fields" where
  "copy_custom_field cfg fs customField =
     (let fieldName = cf_name customField;
          adoFieldName = get_name (custom_field_mappings cfg) fieldName
      in if truthy (value_of adoFieldName) \<and> truthy (cf_value customField)
         then set_field (text_of adoFieldName) (cf_value customField) fs
         else fs)"

text \<open>The scalar part of \<^verbatim>\<open>mapRedmineIssueToAdoFields\<close>, in the order of the source.\<close>

definition scalar_fields :: "config \<Rightarrow> string option \<Rightarrow> issue \<Rightarrow> lookup \<Rightarrow> fields" where
  "scalar_fields cfg redmine_url issue workItemType =
     (let f1 = AList.update ''System.Title'' (JStr (str_or (subject issue) ''Untitled'')) [];
          f2 = AList.update ''System.Description'' (JStr (compose_description cfg redmine_url issue)) f1;
          f3 = assign_if (truthy (str (name_of (status issue)))) ''System.State''
                 (mapStatus cfg (the (name_of (status issue))) workItemType) f2;
          f4 = assign_if (truthy (str (name_of (priority issue)))) ''Microsoft.VSTS.Common.Priority''
                 (mapPriority cfg (the (name_of (priority issue)))) f3;
          f5 = assign_if (truthy (str (name_of (assigned_to issue)))) ''System.AssignedTo''
                 (str (name_of (assigned_to issue))) f4;
          f6 = assign_if (truthy (str (start_date issue))) ''Microsoft.VSTS.Scheduling.StartDate''
                 (str (start_date issue)) f5;
          f7 = assign_if (truthy (str (due_date issue))) ''Microsoft.VSTS.Scheduling.DueDate''
                 (str (due_date issue)) f6;
          f8 = assign_if (truthy (str (created_on issue))) ''System.CreatedDate''
                 (str (created_on issue)) f7;
          f9 = assign_if (truthy (str (updated_on issue))) ''System.ChangedDate''
                 (str (updated_on issue)) f8;
          f10 = assign_if (truthy (str (closed_on issue))) ''Microsoft.VSTS.Common.ClosedDate''
                  (str (closed_on issue)) f9;
          f11 = assign_if (truthy (num (estimated_hours issue)))
                  ''Microsoft.VSTS.Scheduling.OriginalEstimate'' (num (estimated_hours issue)) f10;
          f12 = assign_if (done_ratio issue \<noteq> None) ''Microsoft.VSTS.Scheduling.CompletedWork''
                  (num (done_ratio issue)) f11
      in f12)"

definition mapRedmineIssueToAdoFields :: "config \<Rightarrow> string option \<Rightarrow> issue \<Rightarrow> lookup \<times> fields" where
  "mapRedmineIssueToAdoFields cfg redmine_url issue =
     (let workItemType = mapWorkItemType cfg (str_or (name_of (tracker issue)) ''Task'');
          fs = scalar_fields cfg redmine_url issue workItemType;
          fs' = (case custom_fields issue of
                   None \<Rightarrow> fs
                 | Some cfs \<Rightarrow> foldl (copy_custom_field cfg) fs cfs)
      in (workItemType, fs'))"

definition shouldMigrateAttachments :: "config \<Rightarrow> bool" where
  "shouldMigrateAttachments cfg = (option_field cfg migrate_attachments \<noteq> JBool False)"

definition shouldMigrateComments :: "config \<Rightarrow> bool" where
  "shouldMigrateComments cfg = (option_field cfg migrate_comments \<noteq> JBool False)"

definition shouldMigrateRelations :: "config \<Rightarrow> bool" where
  "shouldMigrateRelations cfg = (option_field cfg migrate_relations \<noteq> JBool False)"

definition shouldMigrateSubtasks :: "config \<Rightarrow> bool" where
  "shouldMigrateSubtasks cfg = (option_field cfg migrate_subtasks \<noteq> JBool False)"

definition getDelayMs :: "config \<Rightarrow> jsval" where
  "getDelayMs cfg = js_or (option_field cfg delay_ms) (JNum 100)"

definition getBatchSize :: "config \<Rightarrow> int" where
  "getBatchSize cfg =
     (case migration_options cfg of
        None \<Rightarrow> 50
      | Some opts \<Rightarrow> (case batch_size opts of None \<Rightarrow> 50 | Some b \<Rightarrow> if b \<noteq> 0 then b else 50))"

section \<open>RedmineUtil\<close>

text \<open>
  One answer of \<^verbatim>\<open>GET /issues.json\<close>: the request throws, or it carries
  \<^verbatim>\<open>data.issues\<close> and \<^verbatim>\<open>data.total_count\<close>, each of which may be missing.
  The server is a function from the requested offset to its answer; the loop asks for each
  offset at most once, so this covers a server that changes between requests.
\<close>

datatype page_response = PageError | Page "issue list option" "int option"

text \<open>\<^verbatim>\<open>allIssues.length >= data.total_count\<close>; a comparison with undefined is false.\<close>

definition reached_total :: "issue list \<Rightarrow> int option \<Rightarrow> bool" where
  "reached_total allIssues total_count =
     (case total_count of None \<Rightarrow> False | Some t \<Rightarrow> int (length allIssues) \<ge> t)"

text \<open>
  The \<^verbatim>\<open>while (hasMore)\<close> loop with its state \<^verbatim>\<open>(allIssues, offset)\<close> and the limit
  100. The loop may run forever, which is the value \<open>None\<close>.
\<close>

partial_function (option) fetch_pages ::
  "(nat \<Rightarrow> page_response) \<Rightarrow> issue list \<Rightarrow> nat \<Rightarrow> issue list option" where
  "fetch_pages get allIssues offset =
     (case get offset of
        PageError \<Rightarrow> Some allIssues
      | Page data_issues total_count \<Rightarrow>
          (let issues = (case data_issues of None \<Rightarrow> [] | Some l \<Rightarrow> l);
               allIssues = allIssues @ issues
           in if length issues < 100 \<or> reached_total allIssues total_count
              then Some allIssues
              else fetch_pages get allIssues (offset + 100)))"

definition getAllIssues :: "(nat \<Rightarrow> page_response) \<Rightarrow> issue list option" where
  "getAllIssues get = fetch_pages get [] 0"

definition format_detail :: "detail \<Rightarrow> string" where
  "format_detail d =
     ''<li>'' @ str_or (d_name d) ''Unknown field'' @ '': '' @ str_or (old_value d) ''(empty)''
       @ '' -> '' @ str_or (new_value d) ''(empty)'' @ ''</li>''"

text \<open>\<open>toISOString\<close> stands for \<^verbatim>\<open>new Date(s).toISOString()\<close> on a timestamp of the
  source system.\<close>

definition formatJournalAsComment :: "(string \<Rightarrow> string) \<Rightarrow> journal \<Rightarrow> string" where
  "formatJournalAsComment toISOString journal =
     (let date = (if truthy (str (j_created_on journal))
                  then toISOString (the (j_created_on journal)) else ''Unknown Date'');
          user = str_or (name_of (j_user journal)) ''Unknown User'';
          notes = str_or (j_notes journal) ''No notes provided.'';
          c1 = ''<b>Update by '' @ user @ '' on '' @ date @ ''</b><br/>'';
          c2 = (case j_details journal of
                  None \<Rightarrow> c1
                | Some ds \<Rightarrow>
                    if length ds > 0
                    then c1 @ ''<br/><b>Changes:</b><ul>'' @ concat (map format_detail ds) @ ''</ul>''
                    else c1)
      in if notes \<noteq> [] then c2 @ ''<br/><b>Notes:</b><br/>'' @ notes else c2)"

text \<open>\<^verbatim>\<open>a || b\<close> on optional ids: 0 and a missing id are falsy.\<close>

definition truthy_id :: "int option \<Rightarrow> bool" where
  "truthy_id a = (case a of None \<Rightarrow> False | Some x \<Rightarrow> x \<noteq> 0)"

definition id_or :: "int option \<Rightarrow> int option \<Rightarrow> int option" where
  "id_or a b = (if truthy_id a then a else b)"

definition getParentId :: "issue \<Rightarrow> int option" where
  "getParentId issue = id_or (case parent issue of None \<Rightarrow> None | Some p \<Rightarrow> ref_id p) None"

section \<open>The two remote systems and the state of a run\<close>

text \<open>
  Every request that the run sends is appended to \<open>calls\<close>. What the remote system answers
  to a request is given by the world, as a function of the number of requests sent before
  it: any behaviour of the two servers is one such world. A request that throws is caught by
  the utility that sends it, which then returns null or false: that is the answer \<open>None\<close>
  or \<open>False\<close>. \<open>issueIdMap\<close> is the module's \<^verbatim>\<open>Map\<close>, in insertion order. The
  pauses between requests and the console output change none of this and are left out.
\<close>

datatype call =
    GetIssue int
  | GetAttachment string
  | PostWorkItem string "(string \<times> jsval) list"
  | PatchHistory int string
  | PostAttachment string string
  | PatchAttachedFile int string string
  | PatchRelation int int lookup string

record world =
  redmine_issues :: "nat \<Rightarrow> page_response"
  redmine_issue :: "nat \<Rightarrow> issue option"
  redmine_attachment :: "nat \<Rightarrow> string option"
  ado_post_workitem :: "nat \<Rightarrow> int option"
  ado_post_attachment :: "nat \<Rightarrow> string option"
  ado_patch :: "nat \<Rightarrow> bool"

record mstate =
  issueIdMap :: "(int \<times> int) list"
  calls :: "call list"

definition send :: "call \<Rightarrow> mstate \<Rightarrow> mstate" where
  "send c st = st\<lparr>calls := calls st @ [c]\<rparr>"

text \<open>\<^verbatim>\<open>Map.prototype.set\<close> and \<^verbatim>\<open>Map.prototype.get\<close>; the key of a lookup may be
  undefined, which is never a key of the map.\<close>

definition map_set :: "int \<Rightarrow> int \<Rightarrow> (int \<times> int) list \<Rightarrow> (int \<times> int) list" where
  "map_set k v m = AList.update k v m"

definition map_get :: "(int \<times> int) list \<Rightarrow> int option \<Rightarrow> int option" where
  "map_get m k = (case k of None \<Rightarrow> None | Some x \<Rightarrow> map_of m x)"

section \<open>AdoUtil (ado-util.js)\<close>

definition add_default_path :: "string \<Rightarrow> string \<Rightarrow> (string \<times> jsval) list \<Rightarrow> (string \<times> jsval) list" where
  "add_default_path path project patchDocument =
     (if \<not> list_ex (\<lambda>field. fst field = path) patchDocument
      then patchDocument @ [(path, JStr project)] else patchDocument)"

text \<open>
  \<^verbatim>\<open>Object.entries(fields)\<close>: the keys that are array indices (a decimal number below
  \<open>2^32 - 1\<close>, written without a leading zero) come first, in ascending order, and the
  other keys follow in the order in which they were first assigned.
\<close>

definition digits_value :: "string \<Rightarrow> nat" where
  "digits_value k = foldl (\<lambda>n c. 10 * n + (of_char c - 48)) 0 k"

definition is_array_index :: "string \<Rightarrow> bool" where
  "is_array_index k =
     (k \<noteq> [] \<and> list_all (\<lambda>c. 48 \<le> (of_char c :: nat) \<and> (of_char c :: nat) \<le> 57) k
      \<and> (length k = 1 \<or> hd k \<noteq> CHR ''0'') \<and> digits_value k < 4294967295)"

definition entries :: "fields \<Rightarrow> fields" where
  "entries fs =
     sort_key (\<lambda>field. digits_value (fst field)) (filter (\<lambda>field. is_array_index (fst field)) fs)
       @ filter (\<lambda>field. \<not> is_array_index (fst field)) fs"

definition patch_document :: "string \<Rightarrow> fields \<Rightarrow> (string \<times> jsval) list" where
  "patch_document project fs =
     (let patchDocument =
            map (\<lambda>(fieldPath, v). (''/fields/'' @ fieldPath, v))
              (filter (\<lambda>(fieldPath, v). v \<noteq> JNull \<and> v \<noteq> JUndefined) (entries fs));
          patchDocument = add_default_path ''/fields/System.AreaPath'' project patchDocument;
          patchDocument = add_default_path ''/fields/System.IterationPath'' project patchDocument
      in patchDocument)"

text \<open>\<open>PostWorkItem t d\<close> is the POST of the patch document \<open>d\<close> to the url that ends in
  \<^verbatim>\<open>/workitems/$t\<close>, where \<open>t\<close> is the work-item type as a string.\<close>

definition createWorkItem :: "world \<Rightarrow> string \<Rightarrow> lookup \<Rightarrow> fields \<Rightarrow> mstate \<Rightarrow> int option \<times> mstate" where
  "createWorkItem w project workItemType fs st =
     (ado_post_workitem w (length (calls st)),
      send (PostWorkItem (text_of workItemType) (patch_document project fs)) st)"

definition addComment :: "world \<Rightarrow> int \<Rightarrow> string \<Rightarrow> mstate \<Rightarrow> bool \<times> mstate" where
  "addComment w workItemId commentText st =
     (ado_patch w (length (calls st)), send (PatchHistory workItemId commentText) st)"

definition uploadAttachment :: "world \<Rightarrow> string \<Rightarrow> string \<Rightarrow> mstate \<Rightarrow> string option \<times> mstate" where
  "uploadAttachment w fileContent fileName st =
     (ado_post_attachment w (length (calls st)), send (PostAttachment fileName fileContent) st)"

definition attachFileToWorkItem :: "world \<Rightarrow> int \<Rightarrow> string \<Rightarrow> string \<Rightarrow> mstate \<Rightarrow> bool \<times> mstate" where
  "attachFileToWorkItem w workItemId attachmentUrl fileName st =
     (ado_patch w (length (calls st)),
      send (PatchAttachedFile workItemId attachmentUrl (''Attachment: '' @ fileName)) st)"

text \<open>
  \<open>createLink\<close> returns whether the link was created. \<open>PatchRelation from to rel comment\<close> is
  the PATCH on work item \<open>from\<close> that adds a relation \<open>rel\<close> whose url is that of work item
  \<open>to\<close>.
\<close>

definition createLink :: "world \<Rightarrow> int \<Rightarrow> int \<Rightarrow> lookup \<Rightarrow> string \<Rightarrow> mstate \<Rightarrow> bool \<times> mstate" where
  "createLink w sourceWorkItemId targetWorkItemId linkType comment st =
     (if sourceWorkItemId = targetWorkItemId then (False, st)
      else (ado_patch w (length (calls st)),
            send (PatchRelation sourceWorkItemId targetWorkItemId linkType
                    (if comment \<noteq> [] then comment else ''Link: '' @ text_of linkType)) st))"

definition getIssueDetails :: "world \<Rightarrow> int \<Rightarrow> mstate \<Rightarrow> issue option \<times> mstate" where
  "getIssueDetails w issueId st = (redmine_issue w (length (calls st)), send (GetIssue issueId) st)"

definition getAttachmentContent :: "world \<Rightarrow> string \<Rightarrow> mstate \<Rightarrow> string option \<times> mstate" where
  "getAttachmentContent w attachmentUrl st =
     (redmine_attachment w (length (calls st)), send (GetAttachment attachmentUrl) st)"

section \<open>The orchestrator (migrate.js)\<close>

text \<open>The parts of the run's environment that the orchestrator reads.\<close>

record env =
  REDMINE_URL :: "string option"
  toISOString :: "string \<Rightarrow> string"
  project :: string

definition migrateComments :: "world \<Rightarrow> env \<Rightarrow> journal list \<Rightarrow> int \<Rightarrow> mstate \<Rightarrow> mstate" where
  "migrateComments w e js adoWorkItemId st =
     foldl (\<lambda>s journal. snd (addComment w adoWorkItemId
                                (formatJournalAsComment (toISOString e) journal) s)) st js"

definition migrateAttachment :: "world \<Rightarrow> int \<Rightarrow> mstate \<Rightarrow> attachment \<Rightarrow> mstate" where
  "migrateAttachment w adoWorkItemId st a =
     (case getAttachmentContent w (content_url a) st of
        (None, st1) \<Rightarrow> st1
      | (Some fileContent, st1) \<Rightarrow>
          (case uploadAttachment w fileContent (filename a) st1 of
             (attachmentUrl, st2) \<Rightarrow>
               if truthy (str attachmentUrl)
               then snd (attachFileToWorkItem w adoWorkItemId (the attachmentUrl) (filename a) st2)
               else st2))"

definition migrateAttachments :: "world \<Rightarrow> attachment list \<Rightarrow> int \<Rightarrow> mstate \<Rightarrow> mstate" where
  "migrateAttachments w as adoWorkItemId st = foldl (migrateAttachment w adoWorkItemId) st as"

definition migrateIssue :: "world \<Rightarrow> config \<Rightarrow> env \<Rightarrow> issue \<Rightarrow> mstate \<Rightarrow> int option \<times> mstate" where
  "migrateIssue w cfg e redmineIssue st =
     (case mapRedmineIssueToAdoFields cfg (REDMINE_URL e) redmineIssue of
        (workItemType, fs) \<Rightarrow>
          (case createWorkItem w (project e) workItemType fs st of
             (None, st1) \<Rightarrow> (None, st1)
           | (Some workItemId, st1) \<Rightarrow>
               (let st2 = st1\<lparr>issueIdMap := map_set (id' redmineIssue) workItemId (issueIdMap st1)\<rparr>;
                    st3 = (case journals redmineIssue of
                             None \<Rightarrow> st2
                           | Some js \<Rightarrow>
                               if shouldMigrateComments cfg \<and> length js > 0
                               then migrateComments w e js workItemId st2 else st2);
                    st4 = (case attachments redmineIssue of
                             None \<Rightarrow> st3
                           | Some as \<Rightarrow>
                               if shouldMigrateAttachments cfg \<and> length as > 0
                               then migrateAttachments w as workItemId st3 else st3)
                in (Some workItemId, st4))))"

text \<open>The body of the inner loop of \<^verbatim>\<open>migrateRelations\<close>, for one relation.\<close>

definition targetRedmineId :: "relation \<Rightarrow> int option" where
  "targetRedmineId r = id_or (issue_id r) (issue_to_id r)"

definition migrateRelation :: "world \<Rightarrow> config \<Rightarrow> int \<Rightarrow> mstate \<Rightarrow> relation \<Rightarrow> mstate" where
  "migrateRelation w cfg sourceAdoId st r =
     (let targetAdoId = map_get (issueIdMap st) (targetRedmineId r)
      in if truthy_id targetAdoId
         then snd (createLink w sourceAdoId (the targetAdoId)
                     (mapRelationType cfg (relation_type r))
                     (relation_type r @ '' relationship from Redmine'') st)
         else st)"

text \<open>The body of the outer loop of \<^verbatim>\<open>migrateRelations\<close>, for one issue.\<close>

definition migrateIssueRelations :: "world \<Rightarrow> config \<Rightarrow> mstate \<Rightarrow> issue \<Rightarrow> mstate" where
  "migrateIssueRelations w cfg st issue =
     (let sourceAdoId = map_get (issueIdMap st) (Some (id' issue))
      in if \<not> truthy_id sourceAdoId then st
         else
           let st1 = (if shouldMigrateSubtasks cfg
                      then (let parentId = getParentId issue
                            in if truthy_id parentId
                               then (let parentAdoId = map_get (issueIdMap st) parentId
                                     in if truthy_id parentAdoId
                                        then snd (createLink w (the sourceAdoId) (the parentAdoId)
                                                    (Text ''System.LinkTypes.Hierarchy-Reverse'')
                                                    ''Parent-Child relationship from Redmine'' st)
                                        else st)
                               else st)
                      else st)
           in (case relations issue of
                 None \<Rightarrow> st1
               | Some rs \<Rightarrow>
                   if shouldMigrateRelations cfg \<and> length rs > 0
                   then foldl (migrateRelation w cfg (the sourceAdoId)) st1 rs
                   else st1))"

definition migrateRelations :: "world \<Rightarrow> config \<Rightarrow> issue list \<Rightarrow> mstate \<Rightarrow> mstate" where
  "migrateRelations w cfg redmineIssues st = foldl (migrateIssueRelations w cfg) st redmineIssues"

text \<open>\<^verbatim>\<open>Array.prototype.slice(start, end)\<close> on integer arguments: a negative index counts
  from the end of the array.\<close>

definition slice :: "'a list \<Rightarrow> int \<Rightarrow> int \<Rightarrow> 'a list" where
  "slice xs start end' =
     (let n = int (length xs);
          k = (if start < 0 then max (n + start) 0 else min start n);
          final = (if end' < 0 then max (n + end') 0 else min end' n)
      in take (nat (final - k)) (drop (nat k) xs))"

text \<open>The loop that fetches the details of each listed issue.\<close>

definition fetch_detail :: "world \<Rightarrow> issue list \<times> mstate \<Rightarrow> issue \<Rightarrow> issue list \<times> mstate" where
  "fetch_detail w acc issue =
     (case getIssueDetails w (id' issue) (snd acc) of
        (None, st1) \<Rightarrow> (fst acc, st1)
      | (Some detailed, st1) \<Rightarrow> (fst acc @ [detailed], st1))"

definition migrate_batch :: "world \<Rightarrow> config \<Rightarrow> env \<Rightarrow> issue list \<Rightarrow> mstate \<Rightarrow> mstate" where
  "migrate_batch w cfg e batch st = foldl (\<lambda>s issue. snd (migrateIssue w cfg e issue s)) st batch"

text \<open>The loop \<^verbatim>\<open>for (let i = 0; i < detailedIssues.length; i += batchSize)\<close>; with a
  negative batch size it does not end.\<close>

partial_function (option) migrate_batches ::
  "world \<Rightarrow> config \<Rightarrow> env \<Rightarrow> issue list \<Rightarrow> int \<Rightarrow> int \<Rightarrow> mstate \<Rightarrow> mstate option" where
  "migrate_batches w cfg e detailedIssues batchSize i st =
     (if i < int (length detailedIssues)
      then migrate_batches w cfg e detailedIssues batchSize (i + batchSize)
             (migrate_batch w cfg e (slice detailedIssues i (i + batchSize)) st)
      else Some st)"

definition initial_state :: mstate where
  "initial_state = \<lparr>issueIdMap = [], calls = []\<rparr>"

text \<open>\<^verbatim>\<open>migrateAllIssues\<close> returns the state in which the run ends; its
  \<open>issueIdMap\<close> is what the run writes to migration-mapping.json.\<close>

definition migrateAllIssues :: "world \<Rightarrow> config \<Rightarrow> env \<Rightarrow> mstate option" where
  "migrateAllIssues w cfg e =
     (case getAllIssues (redmine_issues w) of
        None \<Rightarrow> None
      | Some issues \<Rightarrow>
          if length issues = 0 then Some initial_state
          else
            (case foldl (fetch_detail w) ([], initial_state) issues of
               (detailedIssues, st1) \<Rightarrow>
                 (case migrate_batches w cfg e detailedIssues (getBatchSize cfg) 0 st1 of
                    None \<Rightarrow> None
                  | Some st2 \<Rightarrow> Some (migrateRelations w cfg detailedIssues st2))))"

section \<open>Notions used to state the properties\<close>

text \<open>The keys of a field set.\<close>

definition keys :: "fields \<Rightarrow> string set" where
  "keys fs = fst ` set fs"

text \<open>A source value that is absent or empty.\<close>

definition absent :: "jsval \<Rightarrow> bool" where
  "absent v = (v = JUndefined \<or> v = JNull \<or> v = JStr [])"

text \<open>The scalar fields that are copied under a condition, each with the target field it is
  copied to and its source value.\<close>

definition scalar_sources :: "issue \<Rightarrow> (string \<times> jsval) list" where
  "scalar_sources issue =
     [(''System.AssignedTo'', str (name_of (assigned_to issue))),
      (''Microsoft.VSTS.Scheduling.StartDate'', str (start_date issue)),
      (''Microsoft.VSTS.Scheduling.DueDate'', str (due_date issue)),
      (''System.CreatedDate'', str (created_on issue)),
      (''System.ChangedDate'', str (updated_on issue)),
      (''Microsoft.VSTS.Common.ClosedDate'', str (closed_on issue)),
      (''Microsoft.VSTS.Scheduling.OriginalEstimate'', num (estimated_hours issue)),
      (''Microsoft.VSTS.Scheduling.CompletedWork'', num (done_ratio issue))]"

text \<open>The target fields to which the loop over the custom fields of an issue gives a
  key.\<close>

definition writes_custom_field :: "config \<Rightarrow> custom_field \<Rightarrow> bool" where
  "writes_custom_field cfg c =
     (truthy (value_of (get_name (custom_field_mappings cfg) (cf_name c))) \<and> truthy (cf_value c)
      \<and> text_of (get_name (custom_field_mappings cfg) (cf_name c)) \<noteq> ''__proto__'')"

definition custom_keys :: "config \<Rightarrow> issue \<Rightarrow> string list" where
  "custom_keys cfg issue =
     (case custom_fields issue of
        None \<Rightarrow> []
      | Some cfs \<Rightarrow> map (\<lambda>c. text_of (get_name (custom_field_mappings cfg) (cf_name c)))
                     (filter (writes_custom_field cfg) cfs))"

text \<open>The entry that the file has for a status in the status table of a work-item type (or
  of \<open>default\<close>), if any.\<close>

definition status_entry :: "config \<Rightarrow> string \<Rightarrow> string \<Rightarrow> string option" where
  "status_entry cfg tbl s =
     (case status_mappings cfg of
        None \<Rightarrow> None
      | Some sm \<Rightarrow> (case sm tbl of None \<Rightarrow> None | Some m \<Rightarrow> m s))"

text \<open>A sequence of insertions into the identity map.\<close>

definition put_all :: "(int \<times> int) list \<Rightarrow> (int \<times> int) list \<Rightarrow> (int \<times> int) list" where
  "put_all m kvs = foldl (\<lambda>m kv. map_set (fst kv) (snd kv) m) m kvs"

text \<open>
  The other endpoint of a relation, seen from an issue, as the report of this repository
  computes it (\<^verbatim>\<open>relatedIds\<close>):
  \<^verbatim>\<open>if (r.issue_id === details.id) { return r.issue_to_id; } return r.issue_id;\<close>
\<close>

definition related_id :: "issue \<Rightarrow> relation \<Rightarrow> int option" where
  "related_id details r = (if issue_id r = Some (id' details) then issue_to_id r else issue_id r)"

text \<open>A relation whose looked-up id is a key of the identity map, and an issue without the
  relations that are not.\<close>

definition resolvable :: "(int \<times> int) list \<Rightarrow> relation \<Rightarrow> bool" where
  "resolvable m r = (map_get m (targetRedmineId r) \<noteq> None)"

definition drop_unresolved :: "(int \<times> int) list \<Rightarrow> issue \<Rightarrow> issue" where
  "drop_unresolved m issue = issue\<lparr>relations := map_option (filter (resolvable m)) (relations issue)\<rparr>"

text \<open>
  The records of an answer, the records of the first \<open>k\<close> answers, and the two ways in
  which the answer to request number \<open>k\<close> (at offset \<open>100 * k\<close>) ends the fetch: it is a
  page with fewer than 100 records or one with which the count reaches the reported total,
  or the request fails.
\<close>

definition page_issues :: "page_response \<Rightarrow> issue list" where
  "page_issues r =
     (case r of
        PageError \<Rightarrow> []
      | Page data_issues total_count \<Rightarrow> (case data_issues of None \<Rightarrow> [] | Some l \<Rightarrow> l))"

definition fetched :: "(nat \<Rightarrow> page_response) \<Rightarrow> nat \<Rightarrow> issue list" where
  "fetched get k = concat (map (\<lambda>j. page_issues (get (100 * j))) [0..<k])"

definition last_page :: "(nat \<Rightarrow> page_response) \<Rightarrow> nat \<Rightarrow> bool" where
  "last_page get k =
     (case get (100 * k) of
        PageError \<Rightarrow> False
      | Page data_issues total_count \<Rightarrow>
          length (page_issues (get (100 * k))) < 100
          \<or> reached_total (fetched get (Suc k)) total_count)"

definition request_fails :: "(nat \<Rightarrow> page_response) \<Rightarrow> nat \<Rightarrow> bool" where
  "request_fails get k = (get (100 * k) = PageError)"

text \<open>
  The requests that create a link, those that create a node, and the others; the request
  that creates the node of an issue; and the records of which the run has fetched the
  details.
\<close>

definition is_link :: "call \<Rightarrow> bool" where
  "is_link c = (case c of PatchRelation a b t m \<Rightarrow> True | _ \<Rightarrow> False)"

definition is_create :: "call \<Rightarrow> bool" where
  "is_create c = (case c of PostWorkItem t d \<Rightarrow> True | _ \<Rightarrow> False)"

definition other_call :: "call \<Rightarrow> bool" where
  "other_call c = (\<not> is_link c \<and> \<not> is_create c)"

definition create_call :: "config \<Rightarrow> env \<Rightarrow> issue \<Rightarrow> call" where
  "create_call cfg e issue =
     (case mapRedmineIssueToAdoFields cfg (REDMINE_URL e) issue of
        (workItemType, fs) \<Rightarrow>
          PostWorkItem (text_of workItemType) (patch_document (project e) fs))"

definition detailed :: "world \<Rightarrow> issue list \<Rightarrow> issue list" where
  "detailed w issues = fst (foldl (fetch_detail w) ([], initial_state) issues)"

section \<open>Example inputs\<close>

text \<open>A configuration without tables. No example names a work-item type after an inherited
  member, so \<open>member_property\<close> is not read in any of them.\<close>

definition bare_config :: config where
  "bare_config = \<lparr>work_item_types = None, status_mappings = None, priority_mappings = None,
     relation_mappings = None, custom_field_mappings = None, migration_options = None,
     member_property = (\<lambda>k s. JUndefined)\<rparr>"

definition bare_options :: options where
  "bare_options = \<lparr>preserve_redmine_id = JUndefined, add_redmine_link = JUndefined,
     migrate_attachments = JUndefined, migrate_comments = JUndefined,
     migrate_relations = JUndefined, migrate_subtasks = JUndefined,
     delay_ms = JUndefined, batch_size = None\<rparr>"

definition bare_issue :: "int \<Rightarrow> issue" where
  "bare_issue n = \<lparr>id' = n, subject = None, description = None, tracker = None, status = None,
     priority = None, assigned_to = None, start_date = None, due_date = None, created_on = None,
     updated_on = None, closed_on = None, estimated_hours = None, done_ratio = None,
     custom_fields = None, journals = None, attachments = None, relations = None, parent = None\<rparr>"

definition demo_env :: env where
  "demo_env = \<lparr>REDMINE_URL = None, toISOString = (\<lambda>s. s), project = ''Demo''\<rparr>"

text \<open>A world in which the source has nothing to list and the target accepts every request,
  numbering the work items from 500 by the position of the request.\<close>

definition demo_world :: world where
  "demo_world = \<lparr>redmine_issues = (\<lambda>offset. PageError), redmine_issue = (\<lambda>n. None),
     redmine_attachment = (\<lambda>n. None), ado_post_workitem = (\<lambda>n. Some (500 + int n)),
     ado_post_attachment = (\<lambda>n. None), ado_patch = (\<lambda>n. True)\<rparr>"

definition empty_default_config :: config where
  "empty_default_config =
     bare_config\<lparr>status_mappings := Some [''default'' \<mapsto> [''Closed'' \<mapsto> '''']]\<rparr>"

definition two_level_config :: config where
  "two_level_config =
     bare_config\<lparr>status_mappings :=
       Some [''default'' \<mapsto> [''Closed'' \<mapsto> ''Done'', ''Open'' \<mapsto> ''To Do''],
             ''Bug'' \<mapsto> [''Closed'' \<mapsto> ''Resolved'']]\<rparr>"

definition zero_delay_config :: config where
  "zero_delay_config = bare_config\<lparr>migration_options := Some (bare_options\<lparr>delay_ms := JNum 0\<rparr>)\<rparr>"

definition deadline_config :: config where
  "deadline_config =
     bare_config\<lparr>custom_field_mappings :=
       Some [''Deadline'' \<mapsto> ''Microsoft.VSTS.Scheduling.DueDate'',
             ''Estimate'' \<mapsto> ''Microsoft.VSTS.Scheduling.OriginalEstimate'']\<rparr>"

definition deadline_issue :: issue where
  "deadline_issue =
     (bare_issue 1)\<lparr>estimated_hours := Some 0,
       custom_fields := Some [\<lparr>cf_name = ''Deadline'', cf_value = JStr ''2024-05-01''\<rparr>,
                              \<lparr>cf_name = ''Estimate'', cf_value = JStr ''8''\<rparr>]\<rparr>"


definition blocks_relation :: relation where
  "blocks_relation = \<lparr>issue_id = Some 1, issue_to_id = Some 2, relation_type = ''blocks''\<rparr>"

definition from_issue :: issue where
  "from_issue = (bare_issue 1)\<lparr>relations := Some [blocks_relation]\<rparr>"

definition to_issue :: issue where
  "to_issue = (bare_issue 2)\<lparr>relations := Some [blocks_relation]\<rparr>"

definition linked_state :: mstate where
  "linked_state = \<lparr>issueIdMap = [(1, 501), (2, 502)], calls = []\<rparr>"

definition dangling_relation :: relation where
  "dangling_relation = \<lparr>issue_id = Some 999, issue_to_id = Some 2, relation_type = ''relates''\<rparr>"

definition dangling_issue :: issue where
  "dangling_issue = (bare_issue 2)\<lparr>relations := Some [dangling_relation, blocks_relation]\<rparr>"

text \<open>A source with 250 records whose second request fails, and one that answers the second
  request with a short page.\<close>

definition failing_source :: "nat \<Rightarrow> page_response" where
  "failing_source offset =
     (if offset = 0 then Page (Some (replicate 100 (bare_issue 1))) (Some 250) else PageError)"

definition short_source :: "nat \<Rightarrow> page_response" where
  "short_source offset =
     (if offset = 0 then Page (Some (replicate 100 (bare_issue 1))) (Some 250)
      else if offset = 100 then Page (Some [bare_issue 2]) (Some 250)
      else PageError)"

text \<open>
  A run over two records, of which the second is a child of the first: the source lists both
  on one short page and then gives their details; the target accepts every request and
  numbers the work items by the position of the request, which makes them 501 and 502.
\<close>

definition child_issue :: issue where
  "child_issue = (bare_issue 2)\<lparr>parent := Some \<lparr>ref_id = Some 1, name = None\<rparr>\<rparr>"

definition family_world :: world where
  "family_world = \<lparr>
     redmine_issues = (\<lambda>offset. Page (Some [bare_issue 1, bare_issue 2]) (Some 2)),
     redmine_issue = (\<lambda>n. if n = 0 then Some (bare_issue 1) else Some child_issue),
     redmine_attachment = (\<lambda>n. None), ado_post_workitem = (\<lambda>n. Some (499 + int n)),
     ado_post_attachment = (\<lambda>n. None), ado_patch = (\<lambda>n. True)\<rparr>"

section \<open>Properties of the field transformation\<close>

subsection \<open>Status mapping\<close>

lemma default_not_inherited: "\<not> inherited ''default''"
  by (simp add: inherited_def object_prototype_names_def)

lemma status_property_entry:
  "status_entry cfg key s = Some v \<Longrightarrow> status_property cfg key s = JStr v"
  by (auto simp: status_entry_def status_property_def get_name_def value_of_def
        split: option.splits)

lemma status_property_no_entry:
  "\<not> inherited s \<Longrightarrow> \<not> inherited key \<Longrightarrow> status_entry cfg key s = None
   \<Longrightarrow> status_property cfg key s = JUndefined"
  by (auto simp: status_entry_def status_property_def get_name_def value_of_def
        split: option.splits)

text \<open>
  C4, as the code has it, for a status and a work-item type that do not carry the name of a
  member that every object inherits (\<open>constructor\<close>, \<open>toString\<close> and the like).
  \<open>mapStatus\<close> tests the entries of both tables for truthiness, so an entry counts only
  when its value is a non-empty string: a status with such an entry under its work-item type
  gets that value; a status without one, but with a non-empty entry in the default table,
  gets the default-table value; a status with no non-empty entry in either table gets
  exactly \<open>New\<close>.
\<close>

theorem mapStatus_fallback_order:
  "(status_entry cfg t s = Some v \<and> v \<noteq> [] \<longrightarrow> mapStatus cfg s (Text t) = JStr v) \<and>
   (\<not> inherited s \<and> \<not> inherited t \<and> status_entry cfg t s \<in> {None, Some []}
      \<and> status_entry cfg ''default'' s = Some v \<and> v \<noteq> []
      \<longrightarrow> mapStatus cfg s (Text t) = JStr v) \<and>
   (\<not> inherited s \<and> \<not> inherited t \<and> status_entry cfg t s \<in> {None, Some []}
      \<and> status_entry cfg ''default'' s \<in> {None, Some []}
      \<longrightarrow> mapStatus cfg s (Text t) = JStr ''New'')"
proof (intro conjI impI)
  assume "status_entry cfg t s = Some v \<and> v \<noteq> []"
  then show "mapStatus cfg s (Text t) = JStr v"
    by (simp add: mapStatus_def text_of_def status_property_entry)
next
  assume h: "\<not> inherited s \<and> \<not> inherited t \<and> status_entry cfg t s \<in> {None, Some []}
      \<and> status_entry cfg ''default'' s = Some v \<and> v \<noteq> []"
  then have "\<not> truthy (status_property cfg t s)"
    using status_property_entry [of cfg t s "[]"] status_property_no_entry [of s t cfg]
    by auto
  with h show "mapStatus cfg s (Text t) = JStr v"
    by (simp add: mapStatus_def text_of_def status_property_entry)
next
  assume h: "\<not> inherited s \<and> \<not> inherited t \<and> status_entry cfg t s \<in> {None, Some []}
      \<and> status_entry cfg ''default'' s \<in> {None, Some []}"
  then have "\<not> truthy (status_property cfg t s)"
    using status_property_entry [of cfg t s "[]"] status_property_no_entry [of s t cfg]
    by auto
  moreover from h have "\<not> truthy (status_property cfg ''default'' s)"
    using status_property_entry [of cfg "''default''" s "[]"]
      status_property_no_entry [of s "''default''" cfg] default_not_inherited
    by auto
  ultimately show "mapStatus cfg s (Text t) = JStr ''New''"
    by (simp add: mapStatus_def text_of_def)
qed

text \<open>
  C4, witness: with a table for \<open>Bug\<close> and a default table, the three levels are reached by
  \<open>Closed\<close> under \<open>Bug\<close> (specific), \<open>Open\<close> under \<open>Bug\<close> and \<open>Closed\<close> under \<open>Task\<close>
  (default), and \<open>Rejected\<close> (built-in).
\<close>

theorem mapStatus_fallback_order_witness:
  "mapStatus two_level_config ''Closed'' (Text ''Bug'') = JStr ''Resolved'' \<and>
   mapStatus two_level_config ''Open'' (Text ''Bug'') = JStr ''To Do'' \<and>
   mapStatus two_level_config ''Closed'' (Text ''Task'') = JStr ''Done'' \<and>
   mapStatus two_level_config ''Rejected'' (Text ''Bug'') = JStr ''New''"
  using mapStatus_fallback_order [of two_level_config "''Bug''" "''Closed''" "''Resolved''"]
        mapStatus_fallback_order [of two_level_config "''Bug''" "''Open''" "''To Do''"]
        mapStatus_fallback_order [of two_level_config "''Task''" "''Closed''" "''Done''"]
        mapStatus_fallback_order [of two_level_config "''Bug''" "''Rejected''" "''x''"]
  by (simp add: two_level_config_def bare_config_def status_entry_def inherited_def
        object_prototype_names_def)

text \<open>
  C4, counterexample to the claim as it is written. The status \<open>Closed\<close> has no entry under
  \<open>Task\<close> and is present in the default table, with the empty string as its value; the
  result is the built-in \<open>New\<close>, not the default-table value. And the status
  \<open>constructor\<close> is in neither the table of \<open>Bug\<close> nor the default table; the result is
  not \<open>New\<close> but the member that the table of \<open>Bug\<close> inherits under that name.
\<close>

theorem mapStatus_empty_default_counterexample:
  "status_entry empty_default_config ''Task'' ''Closed'' = None \<and>
   status_entry empty_default_config ''default'' ''Closed'' = Some '''' \<and>
   mapStatus empty_default_config ''Closed'' (Text ''Task'') = JStr ''New'' \<and>
   status_entry two_level_config ''Bug'' ''constructor'' = None \<and>
   status_entry two_level_config ''default'' ''constructor'' = None \<and>
   mapStatus two_level_config ''constructor'' (Text ''Bug'') = JMember ''constructor''"
  by (simp add: empty_default_config_def two_level_config_def bare_config_def status_entry_def
        mapStatus_def status_property_def get_name_def value_of_def text_of_def inherited_def
        object_prototype_names_def)

subsection \<open>Delay between calls\<close>

text \<open>
  C9. \<open>getDelayMs\<close> never returns the number zero; without migration options, and with a
  delay that is missing, null or 0, it returns 100.
\<close>

theorem getDelayMs_never_zero:
  "getDelayMs cfg \<noteq> JNum 0 \<and>
   (migration_options cfg = None \<longrightarrow> getDelayMs cfg = JNum 100) \<and>
   (option_field cfg delay_ms \<in> {JUndefined, JNull, JNum 0} \<longrightarrow> getDelayMs cfg = JNum 100)"
  by (auto simp: getDelayMs_def js_or_def option_field_def split: option.splits)

text \<open>C9, witness: a configuration without migration options, and one whose delay is 0.\<close>

theorem getDelayMs_never_zero_witness:
  "getDelayMs bare_config = JNum 100 \<and> getDelayMs zero_delay_config = JNum 100 \<and>
   getDelayMs zero_delay_config \<noteq> JNum 0"
  using getDelayMs_never_zero [of bare_config] getDelayMs_never_zero [of zero_delay_config]
  by (simp add: bare_config_def zero_delay_config_def bare_options_def option_field_def)

subsection \<open>The keys of the produced field set\<close>

lemma keys_update: "keys (AList.update k v fs) = insert k (keys fs)"
  by (simp add: keys_def dom_update)

lemma in_keys_update: "k' \<in> keys (AList.update k v fs) \<longleftrightarrow> k' = k \<or> k' \<in> keys fs"
  by (simp add: keys_update)

lemma in_keys_assign_if: "k' \<in> keys (assign_if c k v fs) \<longleftrightarrow> (c \<and> k' = k) \<or> k' \<in> keys fs"
  by (simp add: assign_if_def keys_update)

lemma map_of_assign_if:
  "map_of (assign_if c k v fs) k' = (if c \<and> k' = k then Some v else map_of fs k')"
  by (simp add: assign_if_def update_conv')

lemma keys_copy_custom_field:
  "keys (copy_custom_field cfg fs c) =
     (if writes_custom_field cfg c
      then insert (text_of (get_name (custom_field_mappings cfg) (cf_name c))) (keys fs)
      else keys fs)"
  by (simp add: copy_custom_field_def writes_custom_field_def Let_def set_field_def keys_update)

lemma keys_custom_loop:
  "keys (foldl (copy_custom_field cfg) fs cfs) =
     keys fs \<union> set (map (\<lambda>c. text_of (get_name (custom_field_mappings cfg) (cf_name c)))
                     (filter (writes_custom_field cfg) cfs))"
  by (induction cfs arbitrary: fs) (auto simp: keys_copy_custom_field)

lemma map_of_copy_custom_field:
  "\<not> (writes_custom_field cfg c
        \<and> k = text_of (get_name (custom_field_mappings cfg) (cf_name c)))
   \<Longrightarrow> map_of (copy_custom_field cfg fs c) k = map_of fs k"
  by (auto simp: copy_custom_field_def writes_custom_field_def Let_def set_field_def
        update_conv')

lemma map_of_custom_loop:
  "k \<notin> set (map (\<lambda>c. text_of (get_name (custom_field_mappings cfg) (cf_name c)))
              (filter (writes_custom_field cfg) cfs))
   \<Longrightarrow> map_of (foldl (copy_custom_field cfg) fs cfs) k = map_of fs k"
proof (induction cfs arbitrary: fs)
  case Nil
  then show ?case by simp
next
  case (Cons c cfs)
  from Cons.prems
  have rest: "k \<notin> set (map (\<lambda>c. text_of (get_name (custom_field_mappings cfg) (cf_name c)))
                        (filter (writes_custom_field cfg) cfs))"
    and here: "\<not> (writes_custom_field cfg c
                  \<and> k = text_of (get_name (custom_field_mappings cfg) (cf_name c)))"
    by (auto split: if_splits)
  show ?case
    using Cons.IH [OF rest] map_of_copy_custom_field [OF here] by simp
qed

lemma keys_result:
  "keys (snd (mapRedmineIssueToAdoFields cfg url issue)) =
     keys (scalar_fields cfg url issue (fst (mapRedmineIssueToAdoFields cfg url issue)))
       \<union> set (custom_keys cfg issue)"
  by (simp add: mapRedmineIssueToAdoFields_def Let_def custom_keys_def keys_custom_loop
        split: option.splits)

lemma map_of_result:
  "k \<notin> set (custom_keys cfg issue) \<Longrightarrow>
   map_of (snd (mapRedmineIssueToAdoFields cfg url issue)) k =
   map_of (scalar_fields cfg url issue (fst (mapRedmineIssueToAdoFields cfg url issue))) k"
  by (simp add: mapRedmineIssueToAdoFields_def Let_def custom_keys_def map_of_custom_loop
        split: option.splits)

lemma in_keys_scalar_fields:
  "k \<in> keys (scalar_fields cfg url issue t) \<longleftrightarrow>
     (done_ratio issue \<noteq> None \<and> k = ''Microsoft.VSTS.Scheduling.CompletedWork'')
     \<or> (truthy (num (estimated_hours issue)) \<and> k = ''Microsoft.VSTS.Scheduling.OriginalEstimate'')
     \<or> (truthy (str (closed_on issue)) \<and> k = ''Microsoft.VSTS.Common.ClosedDate'')
     \<or> (truthy (str (updated_on issue)) \<and> k = ''System.ChangedDate'')
     \<or> (truthy (str (created_on issue)) \<and> k = ''System.CreatedDate'')
     \<or> (truthy (str (due_date issue)) \<and> k = ''Microsoft.VSTS.Scheduling.DueDate'')
     \<or> (truthy (str (start_date issue)) \<and> k = ''Microsoft.VSTS.Scheduling.StartDate'')
     \<or> (truthy (str (name_of (assigned_to issue))) \<and> k = ''System.AssignedTo'')
     \<or> (truthy (str (name_of (priority issue))) \<and> k = ''Microsoft.VSTS.Common.Priority'')
     \<or> (truthy (str (name_of (status issue))) \<and> k = ''System.State'')
     \<or> k = ''System.Description'' \<or> k = ''System.Title''"
  unfolding scalar_fields_def Let_def in_keys_assign_if in_keys_update
  by (simp only: keys_def list.set image_empty empty_iff simp_thms)

lemma absent_not_truthy: "absent v \<Longrightarrow> \<not> truthy v"
  by (auto simp: absent_def)

lemmas eval_fields = mapRedmineIssueToAdoFields_def scalar_fields_def assign_if_def Let_def
  compose_description_def option_field_def str_def num_def str_or_def name_of_def
  mapWorkItemType_def get_name_def value_of_def text_of_def lookup_or_def set_field_def
  copy_custom_field_def bare_config_def bare_issue_def keys_def custom_keys_def
  writes_custom_field_def

subsection \<open>Copy of the scalar fields\<close>

text \<open>
  C3, as the code has it. For the assignee name, the five dates, the effort estimate and the
  completion ratio: when the source value is absent or empty, and the loop over the custom
  fields assigns nothing to the same target field, the field set has no key for it. The
  title is different: its key is always there, and when the loop over the custom fields
  assigns nothing to the title field, its value is the subject, or \<open>Untitled\<close> when
  the subject is absent or empty.
\<close>

theorem scalar_copy_only_if_present:
  "((k, v) \<in> set (scalar_sources issue) \<and> absent v \<and> k \<notin> set (custom_keys cfg issue)
      \<longrightarrow> k \<notin> keys (snd (mapRedmineIssueToAdoFields cfg url issue))) \<and>
   ''System.Title'' \<in> keys (snd (mapRedmineIssueToAdoFields cfg url issue)) \<and>
   (''System.Title'' \<notin> set (custom_keys cfg issue) \<longrightarrow>
      map_of (snd (mapRedmineIssueToAdoFields cfg url issue)) ''System.Title''
        = Some (JStr (str_or (subject issue) ''Untitled'')))"
proof (intro conjI impI)
  assume h: "(k, v) \<in> set (scalar_sources issue) \<and> absent v \<and> k \<notin> set (custom_keys cfg issue)"
  then have nt: "\<not> truthy v" by (simp add: absent_not_truthy)
  have none: "v = num (done_ratio issue) \<Longrightarrow> done_ratio issue = None"
    using h by (cases "done_ratio issue") (auto simp: num_def absent_def)
  from h nt none
  have "k \<notin> keys (scalar_fields cfg url issue (fst (mapRedmineIssueToAdoFields cfg url issue)))"
    unfolding in_keys_scalar_fields scalar_sources_def by auto
  with h show "k \<notin> keys (snd (mapRedmineIssueToAdoFields cfg url issue))"
    by (simp add: keys_result)
next
  show "''System.Title'' \<in> keys (snd (mapRedmineIssueToAdoFields cfg url issue))"
    by (simp add: keys_result in_keys_scalar_fields)
next
  assume "''System.Title'' \<notin> set (custom_keys cfg issue)"
  then show "map_of (snd (mapRedmineIssueToAdoFields cfg url issue)) ''System.Title''
        = Some (JStr (str_or (subject issue) ''Untitled''))"
    by (simp add: map_of_result scalar_fields_def Let_def map_of_assign_if update_conv')
qed

text \<open>
  C3, witness: an issue that has only an id, under a configuration without tables, gets no
  due-date key and the title \<open>Untitled\<close>.
\<close>

theorem scalar_copy_only_if_present_witness:
  "''Microsoft.VSTS.Scheduling.DueDate''
     \<notin> keys (snd (mapRedmineIssueToAdoFields bare_config None (bare_issue 1))) \<and>
   map_of (snd (mapRedmineIssueToAdoFields bare_config None (bare_issue 1))) ''System.Title''
     = Some (JStr ''Untitled'')"
  using scalar_copy_only_if_present [of "''Microsoft.VSTS.Scheduling.DueDate''"
          "str (due_date (bare_issue 1))" "bare_issue 1" bare_config None]
  by (simp add: scalar_sources_def absent_def custom_keys_def bare_issue_def str_def str_or_def)

text \<open>
  C3, counterexample to the claim as it is written: an issue without a subject still gets
  the title key; and an issue without a due date gets the due-date key when a custom field
  of it is mapped to that target field.
\<close>

theorem absent_field_emitted_counterexample:
  "subject (bare_issue 1) = None \<and>
   map_of (snd (mapRedmineIssueToAdoFields bare_config None (bare_issue 1))) ''System.Title''
     = Some (JStr ''Untitled'') \<and>
   due_date deadline_issue = None \<and>
   map_of (snd (mapRedmineIssueToAdoFields deadline_config None deadline_issue))
     ''Microsoft.VSTS.Scheduling.DueDate'' = Some (JStr ''2024-05-01'')"
  by (simp add: eval_fields deadline_config_def deadline_issue_def)

subsection \<open>Zero as an estimate and as a completion ratio\<close>




section \<open>Properties of the identity map\<close>

lemma get_set_same: "map_get (map_set k v m) (Some k) = Some v"
  by (simp add: map_get_def map_set_def update_conv')

lemma get_set_other: "k' \<noteq> k \<Longrightarrow> map_get (map_set k v m) (Some k') = map_get m (Some k')"
  by (simp add: map_get_def map_set_def update_conv')

lemma get_put_all_distinct:
  "distinct (map fst kvs) \<Longrightarrow> (k, v) \<in> set kvs \<Longrightarrow> map_get (put_all m kvs) (Some k) = Some v"
proof (induction kvs rule: rev_induct)
  case Nil
  then show ?case by simp
next
  case (snoc kv kvs)
  show ?case
  proof (cases "(k, v) = kv")
    case True
    then show ?thesis by (auto simp: put_all_def get_set_same)
  next
    case False
    with snoc.prems have mem: "(k, v) \<in> set kvs" by auto
    with snoc.prems have "k \<noteq> fst kv" by (auto simp: image_iff)
    moreover from snoc.prems have "distinct (map fst kvs)" by simp
    ultimately show ?thesis
      using snoc.IH mem by (simp add: put_all_def get_set_other)
  qed
qed

text \<open>
  C2, as the code has it. The identity map is a plain \<^verbatim>\<open>Map\<close>: inserting a source id
  that is already present does not fail, it replaces the target id, and a lookup then
  returns the target id of the last insertion. After insertions with distinct source ids
  into the empty map, a lookup of an inserted id returns the target id it was inserted with.
\<close>

theorem put_overwrites_get_returns_last:
  "map_get (map_set k v' (map_set k v m)) (Some k) = Some v' \<and>
   (distinct (map fst kvs) \<and> (k, v) \<in> set kvs \<longrightarrow> map_get (put_all [] kvs) (Some k) = Some v)"
  by (simp add: get_set_same get_put_all_distinct)

text \<open>C2, witness: three insertions with the distinct source ids 1, 2 and 3.\<close>

theorem put_overwrites_get_returns_last_witness:
  "map_get (map_set 1 600 (map_set 1 500 [])) (Some 1) = Some 600 \<and>
   map_get (put_all [] [(1, 500), (2, 501), (3, 502)]) (Some 1) = Some 500"
  using put_overwrites_get_returns_last [of 1 600 500 "[]" "[(1, 500), (2, 501), (3, 502)]"]
  by simp

lemmas eval_run = migrateIssue_def createWorkItem_def send_def demo_world_def demo_env_def
  initial_state_def map_set_def map_get_def

text \<open>
  C2, counterexample to the claim as it is written: the issue with source id 1 is migrated
  twice; the target creates the work items 500 and 501. The second insertion does not fail:
  the map then sends 1 to 501.
\<close>

theorem duplicate_put_counterexample:
  "map_get (issueIdMap (snd (migrateIssue demo_world bare_config demo_env (bare_issue 1) initial_state)))
     (Some 1) = Some 500 \<and>
   map_get (issueIdMap (snd (migrateIssue demo_world bare_config demo_env (bare_issue 1)
     (snd (migrateIssue demo_world bare_config demo_env (bare_issue 1) initial_state)))))
     (Some 1) = Some 501"
  by (simp add: eval_run eval_fields)

section \<open>Properties of link creation\<close>

text \<open>
  C6. \<open>createLink\<close> from a work item to itself returns failure and leaves the state as it
  is: no request is sent, so no link is created, whatever the link kind and the comment.
\<close>

theorem createLink_rejects_self_link: "createLink w x x linkKind comment st = (False, st)"
  by (simp add: createLink_def)

section \<open>Properties of the relation phase\<close>

lemma issueIdMap_send [simp]: "issueIdMap (send c st) = issueIdMap st"
  by (simp add: send_def)

lemma calls_send [simp]: "calls (send c st) = calls st @ [c]"
  by (simp add: send_def)

lemma issueIdMap_createLink [simp]:
  "issueIdMap (snd (createLink w a b t c st)) = issueIdMap st"
  by (simp add: createLink_def)

lemma issueIdMap_migrateRelation [simp]:
  "issueIdMap (migrateRelation w cfg src st r) = issueIdMap st"
  by (simp add: migrateRelation_def Let_def)

lemma issueIdMap_relation_loop [simp]:
  "issueIdMap (foldl (migrateRelation w cfg src) st rs) = issueIdMap st"
  by (induction rs arbitrary: st) simp_all

lemma issueIdMap_migrateIssueRelations [simp]:
  "issueIdMap (migrateIssueRelations w cfg st issue) = issueIdMap st"
  by (simp add: migrateIssueRelations_def Let_def split: option.splits)

lemma migrateRelation_unresolved:
  "map_get (issueIdMap st) (targetRedmineId r) = None \<Longrightarrow> migrateRelation w cfg src st r = st"
  by (simp add: migrateRelation_def Let_def truthy_id_def)

lemma relation_loop_filter:
  "foldl (migrateRelation w cfg src) st rs
     = foldl (migrateRelation w cfg src) st (filter (resolvable (issueIdMap st)) rs)"
proof (induction rs arbitrary: st)
  case Nil
  then show ?case by simp
next
  case (Cons r rs)
  show ?case
  proof (cases "resolvable (issueIdMap st) r")
    case True
    then show ?thesis using Cons.IH [of "migrateRelation w cfg src st r"] by simp
  next
    case False
    then have "migrateRelation w cfg src st r = st"
      by (simp add: resolvable_def migrateRelation_unresolved)
    with False show ?thesis using Cons.IH [of st] by simp
  qed
qed

lemma migrateIssueRelations_drop:
  "migrateIssueRelations w cfg st issue
     = migrateIssueRelations w cfg st (drop_unresolved (issueIdMap st) issue)"
proof (cases "relations issue")
  case None
  then show ?thesis
    by (simp add: drop_unresolved_def migrateIssueRelations_def getParentId_def Let_def)
next
  case (Some rs)
  have loop: "foldl (migrateRelation w cfg src) s rs
          = foldl (migrateRelation w cfg src) s (filter (resolvable (issueIdMap st)) rs)"
    if "issueIdMap s = issueIdMap st" for s src
    using relation_loop_filter [of w cfg src s rs] that by simp
  have empty: "foldl (migrateRelation w cfg src) s rs = s"
    if "issueIdMap s = issueIdMap st" "filter (resolvable (issueIdMap st)) rs = []" for s src
    using loop [OF that(1), of src] that(2) by simp
  show ?thesis
    using Some
    by (auto simp: migrateIssueRelations_def drop_unresolved_def Let_def getParentId_def
          intro: loop empty)
qed

lemma migrateRelations_drop:
  "migrateRelations w cfg issues st
     = migrateRelations w cfg (map (drop_unresolved (issueIdMap st)) issues) st"
  unfolding migrateRelations_def
proof (induction issues arbitrary: st)
  case Nil
  then show ?case by simp
next
  case (Cons i issues)
  show ?case
    using Cons.IH [of "migrateIssueRelations w cfg st i"]
          migrateIssueRelations_drop [of w cfg st i]
    by simp
qed

lemma migrateRelation_other_endpoint_unresolved:
  assumes "truthy_id (issue_id r)"
    and "map_get (issueIdMap st) (related_id issue r) = None"
    and "map_get (issueIdMap st) (Some (id' issue)) = Some src"
  shows "migrateRelation w cfg src st r = st"
  using assms
  by (auto simp: migrateRelation_def Let_def related_id_def targetRedmineId_def id_or_def
        truthy_id_def createLink_def split: if_splits)

lemmas eval_relations = migrateRelations_def migrateIssueRelations_def migrateRelation_def
  targetRedmineId_def id_or_def truthy_id_def map_get_def getParentId_def createLink_def
  shouldMigrateSubtasks_def shouldMigrateRelations_def option_field_def mapRelationType_def
  get_name_def value_of_def lookup_or_def send_def bare_config_def bare_issue_def
  demo_world_def Let_def

text \<open>
  C7. A relation whose looked-up id (\<open>targetRedmineId\<close>) was never inserted into the
  identity map leaves the state as it is: no request is sent and nothing fails. The same
  holds for a relation with a from-id whose other endpoint, seen from the issue, was never
  inserted. The whole relation phase does on the issues what it does on the issues without
  their unresolved relations, so the remaining relations are processed as if the unresolved
  ones were not there.
\<close>

theorem unresolved_relation_dropped:
  "(map_get (issueIdMap st) (targetRedmineId r) = None
      \<longrightarrow> migrateRelation w cfg sourceAdoId st r = st) \<and>
   (truthy_id (issue_id r) \<and> map_get (issueIdMap st) (related_id issue r) = None
      \<and> map_get (issueIdMap st) (Some (id' issue)) = Some sourceAdoId
      \<longrightarrow> migrateRelation w cfg sourceAdoId st r = st) \<and>
   migrateRelations w cfg issues st
     = migrateRelations w cfg (map (drop_unresolved (issueIdMap st)) issues) st"
  using migrateRelation_unresolved migrateRelation_other_endpoint_unresolved migrateRelations_drop
  by blast

text \<open>
  C7, witness: issue 2 has a relation with the id 999, which is not in the map, and a
  relation with issue 1, which is; the first one changes nothing and the phase does what it
  does without it.
\<close>

theorem unresolved_relation_dropped_witness:
  "migrateRelation demo_world bare_config 502 linked_state dangling_relation = linked_state \<and>
   migrateRelations demo_world bare_config [dangling_issue] linked_state
     = migrateRelations demo_world bare_config [(bare_issue 2)\<lparr>relations := Some [blocks_relation]\<rparr>]
         linked_state"
  using unresolved_relation_dropped [of linked_state dangling_relation demo_world bare_config 502
          dangling_issue "[dangling_issue]"]
  by (simp add: linked_state_def dangling_relation_def dangling_issue_def blocks_relation_def
        drop_unresolved_def resolvable_def targetRedmineId_def id_or_def truthy_id_def map_get_def
        related_id_def bare_issue_def)

text \<open>
  C1, the code at a failing input. Issue 1 blocks issue 2, and both are in the identity map
  (as 501 and 502). Seen from issue 1 the other endpoint is 2, but the lookup takes
  \<^verbatim>\<open>relation.issue_id || relation.issue_to_id\<close>, which is 1, the issue itself; the link
  from 501 would go to 501 and is rejected, so the phase sends nothing. Seen from issue 2,
  where the issue is in the to-position, the same relation gives a link from 502 to 501.
\<close>

theorem relation_from_side_resolves_self:
  "related_id from_issue blocks_relation = Some 2 \<and>
   map_get (issueIdMap linked_state) (Some 2) = Some 502 \<and>
   targetRedmineId blocks_relation = Some 1 \<and>
   migrateRelations demo_world bare_config [from_issue] linked_state = linked_state \<and>
   calls (migrateRelations demo_world bare_config [to_issue] linked_state)
     = [PatchRelation 502 501 (Text ''System.LinkTypes.Related'')
          ''blocks relationship from Redmine'']"
  by (simp add: eval_relations related_id_def from_issue_def to_issue_def blocks_relation_def
        linked_state_def)

section \<open>Properties of the paginated fetch\<close>

lemma fetched_0 [simp]: "fetched get 0 = []"
  by (simp add: fetched_def)

lemma fetched_Suc: "fetched get (Suc k) = fetched get k @ page_issues (get (100 * k))"
  by (simp add: fetched_def)

lemma fetch_pages_stop:
  assumes "last_page get k \<or> request_fails get k"
  shows "fetch_pages get (fetched get k) (100 * k) = Some (fetched get (Suc k))"
proof -
  have "fetch_pages get (fetched get k) (100 * k) =
     (case get (100 * k) of
        PageError \<Rightarrow> Some (fetched get k)
      | Page data_issues total_count \<Rightarrow>
          (let issues = (case data_issues of None \<Rightarrow> [] | Some l \<Rightarrow> l);
               allIssues = fetched get k @ issues
           in if length issues < 100 \<or> reached_total allIssues total_count
              then Some allIssues
              else fetch_pages get allIssues (100 * k + 100)))"
    by (rule fetch_pages.simps)
  with assms show ?thesis
    by (auto simp: last_page_def request_fails_def fetched_Suc page_issues_def Let_def
          split: page_response.splits option.splits)
qed

lemma fetch_pages_continue:
  assumes "\<not> last_page get k" and "\<not> request_fails get k"
  shows "fetch_pages get (fetched get k) (100 * k)
           = fetch_pages get (fetched get (Suc k)) (100 * Suc k)"
proof -
  have "fetch_pages get (fetched get k) (100 * k) =
     (case get (100 * k) of
        PageError \<Rightarrow> Some (fetched get k)
      | Page data_issues total_count \<Rightarrow>
          (let issues = (case data_issues of None \<Rightarrow> [] | Some l \<Rightarrow> l);
               allIssues = fetched get k @ issues
           in if length issues < 100 \<or> reached_total allIssues total_count
              then Some allIssues
              else fetch_pages get allIssues (100 * k + 100)))"
    by (rule fetch_pages.simps)
  with assms show ?thesis
    by (auto simp: last_page_def request_fails_def fetched_Suc page_issues_def Let_def add.commute
          split: page_response.splits option.splits)
qed

lemma fetch_pages_reaches_stop:
  "last_page get (k + d) \<or> request_fails get (k + d) \<Longrightarrow>
   (\<forall>j<d. \<not> last_page get (k + j) \<and> \<not> request_fails get (k + j)) \<Longrightarrow>
   fetch_pages get (fetched get k) (100 * k) = Some (fetched get (Suc (k + d)))"
proof (induction d arbitrary: k)
  case 0
  then show ?case using fetch_pages_stop [of get k] by simp
next
  case (Suc d)
  from Suc.prems(2) have here: "\<not> last_page get k" "\<not> request_fails get k"
    by force+
  have later: "\<forall>j<d. \<not> last_page get (Suc k + j) \<and> \<not> request_fails get (Suc k + j)"
    using Suc.prems(2) by (metis Suc_less_eq add_Suc_shift)
  have "fetch_pages get (fetched get (Suc k)) (100 * Suc k) = Some (fetched get (Suc (Suc k + d)))"
    using Suc.IH [of "Suc k"] Suc.prems(1) later by simp
  with here show ?case
    by (simp add: fetch_pages_continue)
qed

lemma fetch_pages_returns_stops:
  assumes "fetch_pages get allIssues offset = Some r"
  shows "\<forall>k. offset = 100 * k \<longrightarrow> allIssues = fetched get k
           \<longrightarrow> (\<exists>d. last_page get (k + d) \<or> request_fails get (k + d))"
proof (rule fetch_pages.raw_induct
    [where P = "\<lambda>get allIssues offset r. \<forall>k. offset = 100 * k \<longrightarrow> allIssues = fetched get k
           \<longrightarrow> (\<exists>d. last_page get (k + d) \<or> request_fails get (k + d))", OF _ assms], goal_cases)
  case (1 f get allIssues offset r)
  show ?case
  proof (intro allI impI)
    fix k
    assume off: "offset = 100 * k" and acc: "allIssues = fetched get k"
    show "\<exists>d. last_page get (k + d) \<or> request_fails get (k + d)"
    proof (cases "last_page get k \<or> request_fails get k")
      case True
      then show ?thesis by (intro exI [of _ 0]) simp
    next
      case False
      with 1(2) off acc
      have "f get (fetched get (Suc k)) (100 * Suc k) = Some r"
        by (auto simp: last_page_def request_fails_def fetched_Suc page_issues_def Let_def
              add.commute split: page_response.splits option.splits if_splits)
      from 1(1) [OF this]
      obtain d where "last_page get (Suc k + d) \<or> request_fails get (Suc k + d)"
        by blast
      then show ?thesis by (intro exI [of _ "Suc d"]) simp
    qed
  qed
qed

text \<open>
  C8, as the code has it. \<open>getAllIssues\<close> returns exactly when some request ends the
  fetch: its answer is a page with fewer than 100 records, or with it the count reaches the
  reported total, or the request fails. At the first such request it returns the
  concatenation of the pages fetched up to there (a request that fails adds nothing). When no
  request ever ends the fetch, it does not return.
\<close>

theorem getAllIssues_returns_iff_stops:
  "(getAllIssues get \<noteq> None \<longleftrightarrow> (\<exists>k. last_page get k \<or> request_fails get k)) \<and>
   ((last_page get k \<or> request_fails get k)
      \<and> (\<forall>j<k. \<not> last_page get j \<and> \<not> request_fails get j)
    \<longrightarrow> getAllIssues get = Some (fetched get (Suc k)))"
proof (intro conjI iffI impI)
  assume "getAllIssues get \<noteq> None"
  then obtain r where "fetch_pages get [] 0 = Some r"
    by (auto simp: getAllIssues_def)
  from fetch_pages_returns_stops [OF this]
  show "\<exists>k. last_page get k \<or> request_fails get k" by simp
next
  assume "\<exists>k. last_page get k \<or> request_fails get k"
  then obtain k where k: "last_page get k \<or> request_fails get k"
    and least: "\<forall>j<k. \<not> (last_page get j \<or> request_fails get j)"
    using exists_least_iff [of "\<lambda>k. last_page get k \<or> request_fails get k"] by blast
  with fetch_pages_reaches_stop [of get 0 k]
  show "getAllIssues get \<noteq> None" by (simp add: getAllIssues_def)
next
  assume "(last_page get k \<or> request_fails get k)
      \<and> (\<forall>j<k. \<not> last_page get j \<and> \<not> request_fails get j)"
  with fetch_pages_reaches_stop [of get 0 k]
  show "getAllIssues get = Some (fetched get (Suc k))" by (simp add: getAllIssues_def)
qed

lemma two_pages: "[0..<Suc (Suc 0)] = [0, Suc 0]"
  by (simp add: upt_rec)

text \<open>C8, witness: a full page of 100 records and then a page with one record.\<close>

theorem getAllIssues_returns_iff_stops_witness:
  "getAllIssues short_source = Some (replicate 100 (bare_issue 1) @ [bare_issue 2])"
  using getAllIssues_returns_iff_stops [of short_source "Suc 0"]
  by (simp add: last_page_def request_fails_def short_source_def page_issues_def fetched_def
        reached_total_def two_pages)

text \<open>
  C8, counterexample to the claim as it is written: the first page is full and the reported
  total is 250, so that page does not end the fetch; the second request fails, and the fetch
  returns the 100 records it has, although no page was short and the count has not reached
  the total.
\<close>

theorem getAllIssues_failed_request_counterexample:
  "\<not> last_page failing_source 0 \<and> request_fails failing_source 1 \<and>
   getAllIssues failing_source = Some (replicate 100 (bare_issue 1))"
proof -
  have "fetch_pages failing_source (fetched failing_source 0) (100 * 0)
          = Some (fetched failing_source (Suc (0 + Suc 0)))"
    by (rule fetch_pages_reaches_stop)
       (simp_all add: last_page_def request_fails_def failing_source_def page_issues_def
          fetched_def reached_total_def)
  then show ?thesis
    by (simp add: getAllIssues_def last_page_def request_fails_def failing_source_def
          page_issues_def fetched_def reached_total_def two_pages)
qed

section \<open>Order of the phases of a full-batch run\<close>

lemma other_call_simps [simp]:
  "other_call (GetIssue i)" "other_call (GetAttachment u)" "other_call (PatchHistory a s)"
  "other_call (PostAttachment f c)" "other_call (PatchAttachedFile a u f)"
  "\<not> other_call (PostWorkItem t d)" "\<not> other_call (PatchRelation a b k m)"
  by (simp_all add: other_call_def is_link_def is_create_def)

lemma is_link_simps [simp]:
  "is_link (PatchRelation a b k m)" "\<not> is_link (PostWorkItem t d)"
  "is_create (PostWorkItem t d)" "\<not> is_create (PatchRelation a b k m)"
  by (simp_all add: is_link_def is_create_def)

lemma other_calls_filter:
  "list_all other_call xs \<Longrightarrow> filter is_link xs = [] \<and> filter is_create xs = []"
  by (induction xs) (auto simp: other_call_def)

lemma no_calls: "\<exists>xs. calls st = calls st @ xs \<and> list_all P xs"
  by (rule exI [of _ "[]"]) simp

lemma calls_migrateComments:
  "\<exists>xs. calls (migrateComments w e js wid st) = calls st @ xs \<and> list_all other_call xs"
  unfolding migrateComments_def
proof (induction js arbitrary: st)
  case Nil
  then show ?case by simp
next
  case (Cons j js)
  obtain xs where "calls (foldl (\<lambda>s journal. snd (addComment w wid
                      (formatJournalAsComment (toISOString e) journal) s))
                    (snd (addComment w wid (formatJournalAsComment (toISOString e) j) st)) js)
        = calls (snd (addComment w wid (formatJournalAsComment (toISOString e) j) st)) @ xs"
    and "list_all other_call xs"
    using Cons.IH by blast
  then show ?case
    by (intro exI [of _ "PatchHistory wid (formatJournalAsComment (toISOString e) j) # xs"])
       (simp add: addComment_def)
qed

lemma calls_migrateAttachment:
  "\<exists>xs. calls (migrateAttachment w wid st a) = calls st @ xs \<and> list_all other_call xs"
  by (auto simp: migrateAttachment_def getAttachmentContent_def uploadAttachment_def
        attachFileToWorkItem_def split: option.splits prod.splits)

lemma calls_migrateAttachments:
  "\<exists>xs. calls (migrateAttachments w as wid st) = calls st @ xs \<and> list_all other_call xs"
  unfolding migrateAttachments_def
proof (induction as arbitrary: st)
  case Nil
  then show ?case by simp
next
  case (Cons a as)
  obtain xs where xs: "calls (migrateAttachment w wid st a) = calls st @ xs" "list_all other_call xs"
    using calls_migrateAttachment by blast
  obtain ys where ys: "calls (foldl (migrateAttachment w wid) (migrateAttachment w wid st a) as)
        = calls (migrateAttachment w wid st a) @ ys" "list_all other_call ys"
    using Cons.IH by blast
  from xs ys show ?case
    by (intro exI [of _ "xs @ ys"]) simp
qed

lemma calls_migrateIssue:
  "\<exists>xs. calls (snd (migrateIssue w cfg e i st)) = calls st @ create_call cfg e i # xs
        \<and> list_all other_call xs"
proof -
  obtain t fs where tf: "mapRedmineIssueToAdoFields cfg (REDMINE_URL e) i = (t, fs)"
    by (cases "mapRedmineIssueToAdoFields cfg (REDMINE_URL e) i")
  define st1 where "st1 = send (PostWorkItem (text_of t) (patch_document (project e) fs)) st"
  have c1: "calls st1 = calls st @ [create_call cfg e i]"
    by (simp add: st1_def create_call_def tf send_def)
  show ?thesis
  proof (cases "ado_post_workitem w (length (calls st))")
    case None
    then have "snd (migrateIssue w cfg e i st) = st1"
      by (simp add: migrateIssue_def tf createWorkItem_def st1_def)
    with c1 show ?thesis by simp
  next
    case (Some wid)
    define st2 where "st2 = st1\<lparr>issueIdMap := map_set (id' i) wid (issueIdMap st1)\<rparr>"
    define st3 where "st3 = (case journals i of
                             None \<Rightarrow> st2
                           | Some js \<Rightarrow>
                               if shouldMigrateComments cfg \<and> length js > 0
                               then migrateComments w e js wid st2 else st2)"
    define st4 where "st4 = (case attachments i of
                             None \<Rightarrow> st3
                           | Some as \<Rightarrow>
                               if shouldMigrateAttachments cfg \<and> length as > 0
                               then migrateAttachments w as wid st3 else st3)"
    have res: "snd (migrateIssue w cfg e i st) = st4"
      unfolding st4_def st3_def st2_def st1_def migrateIssue_def tf createWorkItem_def Let_def
      using Some by simp
    have c2: "calls st2 = calls st1" by (simp add: st2_def)
    have "\<exists>xs. calls st3 = calls st2 @ xs \<and> list_all other_call xs"
      unfolding st3_def
      using calls_migrateComments [of w e _ wid st2] no_calls [of st2 other_call]
      by (simp split: option.splits)
    then obtain xs where xs: "calls st3 = calls st2 @ xs" "list_all other_call xs"
      by blast
    have "\<exists>ys. calls st4 = calls st3 @ ys \<and> list_all other_call ys"
      unfolding st4_def
      using calls_migrateAttachments [of w _ wid st3] no_calls [of st3 other_call]
      by (simp split: option.splits)
    then obtain ys where ys: "calls st4 = calls st3 @ ys" "list_all other_call ys"
      by blast
    from c1 c2 xs ys res show ?thesis
      by (intro exI [of _ "xs @ ys"]) simp
  qed
qed

lemma calls_migrate_batch:
  "\<exists>ys. calls (migrate_batch w cfg e batch st) = calls st @ ys
        \<and> filter is_create ys = map (create_call cfg e) batch \<and> filter is_link ys = []"
  unfolding migrate_batch_def
proof (induction batch arbitrary: st)
  case Nil
  then show ?case by simp
next
  case (Cons i batch)
  obtain xs where xs: "calls (snd (migrateIssue w cfg e i st)) = calls st @ create_call cfg e i # xs"
      "list_all other_call xs"
    using calls_migrateIssue by blast
  obtain ys where ys: "calls (foldl (\<lambda>s issue. snd (migrateIssue w cfg e issue s))
                               (snd (migrateIssue w cfg e i st)) batch)
        = calls (snd (migrateIssue w cfg e i st)) @ ys"
      "filter is_create ys = map (create_call cfg e) batch" "filter is_link ys = []"
    using Cons.IH by blast
  have cc: "is_create (create_call cfg e i)" "\<not> is_link (create_call cfg e i)"
    by (simp_all add: create_call_def split: prod.splits)
  from xs ys cc other_calls_filter [OF xs(2)] show ?case
    by (intro exI [of _ "create_call cfg e i # xs @ ys"]) simp
qed

lemma calls_fetch_details:
  "calls (snd (foldl (fetch_detail w) acc issues))
     = calls (snd acc) @ map (\<lambda>i. GetIssue (id' i)) issues"
proof (induction issues arbitrary: acc)
  case Nil
  then show ?case by simp
next
  case (Cons i issues)
  have "calls (snd (fetch_detail w acc i)) = calls (snd acc) @ [GetIssue (id' i)]"
    by (simp add: fetch_detail_def getIssueDetails_def send_def split: option.splits)
  with Cons.IH [of "fetch_detail w acc i"] show ?case by simp
qed

lemma calls_createLink:
  "\<exists>zs. calls (snd (createLink w a b t c st)) = calls st @ zs \<and> list_all is_link zs"
  by (simp add: createLink_def send_def)

lemma calls_migrateRelation:
  "\<exists>zs. calls (migrateRelation w cfg src st r) = calls st @ zs \<and> list_all is_link zs"
  using calls_createLink by (simp add: migrateRelation_def Let_def)

lemma calls_relation_loop:
  "\<exists>zs. calls (foldl (migrateRelation w cfg src) st rs) = calls st @ zs \<and> list_all is_link zs"
proof (induction rs arbitrary: st)
  case Nil
  then show ?case by simp
next
  case (Cons r rs)
  obtain xs where xs: "calls (migrateRelation w cfg src st r) = calls st @ xs" "list_all is_link xs"
    using calls_migrateRelation by blast
  obtain ys where ys: "calls (foldl (migrateRelation w cfg src) (migrateRelation w cfg src st r) rs)
        = calls (migrateRelation w cfg src st r) @ ys" "list_all is_link ys"
    using Cons.IH by blast
  from xs ys show ?case by (intro exI [of _ "xs @ ys"]) simp
qed

lemma calls_migrateIssueRelations:
  "\<exists>zs. calls (migrateIssueRelations w cfg st issue) = calls st @ zs \<and> list_all is_link zs"
proof -
  define st1 where "st1 = (if shouldMigrateSubtasks cfg
                      then (let parentId = getParentId issue
                            in if truthy_id parentId
                               then (let parentAdoId = map_get (issueIdMap st) parentId
                                     in if truthy_id parentAdoId
                                        then snd (createLink w (the (map_get (issueIdMap st) (Some (id' issue)))) (the parentAdoId)
                                                    (Text ''System.LinkTypes.Hierarchy-Reverse'')
                                                    ''Parent-Child relationship from Redmine'' st)
                                        else st)
                               else st)
                      else st)"
  have "\<exists>xs. calls st1 = calls st @ xs \<and> list_all is_link xs"
    unfolding st1_def Let_def
    using calls_createLink [of w _ _ _ _ st] no_calls [of st is_link]
    by simp
  then obtain xs where xs: "calls st1 = calls st @ xs" "list_all is_link xs"
    by blast
  define st2 where "st2 = (case relations issue of
                 None \<Rightarrow> st1
               | Some rs \<Rightarrow>
                   if shouldMigrateRelations cfg \<and> length rs > 0
                   then foldl (migrateRelation w cfg (the (map_get (issueIdMap st) (Some (id' issue))))) st1 rs
                   else st1)"
  have "\<exists>ys. calls st2 = calls st1 @ ys \<and> list_all is_link ys"
    unfolding st2_def
    using calls_relation_loop [of w cfg _ st1] no_calls [of st1 is_link]
    by (simp split: option.splits)
  then obtain ys where ys: "calls st2 = calls st1 @ ys" "list_all is_link ys"
    by blast
  show ?thesis
  proof (cases "truthy_id (map_get (issueIdMap st) (Some (id' issue)))")
    case False
    then have "migrateIssueRelations w cfg st issue = st"
      by (simp add: migrateIssueRelations_def Let_def)
    then show ?thesis using no_calls [of st is_link] by simp
  next
    case True
    have "migrateIssueRelations w cfg st issue = st2"
      unfolding st2_def st1_def migrateIssueRelations_def Let_def
      using True by simp
    with xs ys show ?thesis
      by (intro exI [of _ "xs @ ys"]) simp
  qed
qed

lemma calls_migrateRelations:
  "\<exists>zs. calls (migrateRelations w cfg issues st) = calls st @ zs \<and> list_all is_link zs"
  unfolding migrateRelations_def
proof (induction issues arbitrary: st)
  case Nil
  then show ?case by simp
next
  case (Cons i issues)
  obtain xs where xs: "calls (migrateIssueRelations w cfg st i) = calls st @ xs" "list_all is_link xs"
    using calls_migrateIssueRelations by blast
  obtain ys where ys: "calls (foldl (migrateIssueRelations w cfg) (migrateIssueRelations w cfg st i) issues)
        = calls (migrateIssueRelations w cfg st i) @ ys" "list_all is_link ys"
    using Cons.IH by blast
  from xs ys show ?case by (intro exI [of _ "xs @ ys"]) simp
qed

lemma slice_batch:
  assumes "0 \<le> i" and "i < int (length ds)" and "0 < b"
  shows "slice ds i (i + b) = take (nat b) (drop (nat i) ds)"
proof (cases "i + b \<le> int (length ds)")
  case True
  with assms show ?thesis
    by (simp add: slice_def Let_def min_def)
next
  case False
  with assms have "nat b \<ge> length (drop (nat i) ds)" by simp
  with False assms show ?thesis
    by (simp add: slice_def Let_def min_def)
qed

lemma migrate_batch_append:
  "migrate_batch w cfg e (xs @ ys) st = migrate_batch w cfg e ys (migrate_batch w cfg e xs st)"
  by (simp add: migrate_batch_def)

lemma migrate_batches_positive:
  "0 < b \<Longrightarrow> 0 \<le> i \<Longrightarrow>
   migrate_batches w cfg e ds b i st = Some (migrate_batch w cfg e (drop (nat i) ds) st)"
proof (induction "nat (int (length ds) - i)" arbitrary: i st rule: less_induct)
  case less
  show ?case
  proof (cases "i < int (length ds)")
    case False
    then have "migrate_batches w cfg e ds b i st = Some st"
      by (subst migrate_batches.simps) simp
    moreover from False less.prems have "drop (nat i) ds = []" by simp
    ultimately show ?thesis by (simp add: migrate_batch_def)
  next
    case True
    have step: "migrate_batches w cfg e ds b i st
          = migrate_batches w cfg e ds b (i + b) (migrate_batch w cfg e (slice ds i (i + b)) st)"
      using True by (subst migrate_batches.simps) simp
    have smaller: "nat (int (length ds) - (i + b)) < nat (int (length ds) - i)"
      using True less.prems by linarith
    have "migrate_batches w cfg e ds b (i + b) (migrate_batch w cfg e (slice ds i (i + b)) st)
          = Some (migrate_batch w cfg e (drop (nat (i + b)) ds)
                    (migrate_batch w cfg e (slice ds i (i + b)) st))"
      using less.hyps [OF smaller] less.prems by simp
    moreover have "slice ds i (i + b) = take (nat b) (drop (nat i) ds)"
      using True less.prems by (simp add: slice_batch)
    ultimately have run: "migrate_batches w cfg e ds b i st
          = Some (migrate_batch w cfg e (drop (nat (i + b)) ds)
                    (migrate_batch w cfg e (take (nat b) (drop (nat i) ds)) st))"
      using step by simp
    have "drop (nat (i + b)) ds = drop (nat b) (drop (nat i) ds)"
      using less.prems by (simp add: nat_add_distrib add.commute)
    then have "take (nat b) (drop (nat i) ds) @ drop (nat (i + b)) ds = drop (nat i) ds"
      by (simp only: append_take_drop_id)
    then have "migrate_batch w cfg e (drop (nat i) ds) st
          = migrate_batch w cfg e (take (nat b) (drop (nat i) ds) @ drop (nat (i + b)) ds) st"
      by (rule arg_cong [where f = "\<lambda>xs. migrate_batch w cfg e xs st", symmetric])
    also have "\<dots> = migrate_batch w cfg e (drop (nat (i + b)) ds)
                    (migrate_batch w cfg e (take (nat b) (drop (nat i) ds)) st)"
      by (rule migrate_batch_append)
    finally show ?thesis using run by (simp only:)
  qed
qed

lemma migrate_batches_returns:
  assumes "migrate_batches w cfg e ds b i st = Some st'"
  shows "int (length ds) \<le> i \<or> 0 < b"
proof (rule migrate_batches.raw_induct
    [where P = "\<lambda>w cfg e ds b i st st'. int (length ds) \<le> i \<or> 0 < b", OF _ assms], goal_cases)
  case (1 f w cfg e ds b i st st')
  show ?case
  proof (cases "i < int (length ds)")
    case False
    then show ?thesis by simp
  next
    case True
    with 1(2) have "f w cfg e ds b (i + b) (migrate_batch w cfg e (slice ds i (i + b)) st) = Some st'"
      by simp
    from 1(1) [OF this] True show ?thesis by linarith
  qed
qed

lemma migrate_batches_from_start:
  assumes "migrate_batches w cfg e ds b 0 st = Some st'"
  shows "st' = migrate_batch w cfg e ds st"
proof (cases "0 < b")
  case True
  with assms migrate_batches_positive [of b 0 w cfg e ds st] show ?thesis by simp
next
  case False
  with migrate_batches_returns [OF assms] have "ds = []" by simp
  with assms show ?thesis
    by (subst (asm) migrate_batches.simps) (simp add: migrate_batch_def)
qed

lemma takeWhile_not_link: "list_all is_link zs \<Longrightarrow> takeWhile (\<lambda>c. \<not> is_link c) zs = []"
  by (cases zs) simp_all

lemma dropWhile_not_link: "list_all is_link zs \<Longrightarrow> dropWhile (\<lambda>c. \<not> is_link c) zs = zs"
  by (cases zs) simp_all

lemma phases_of_trace:
  assumes pre: "\<forall>c\<in>set pre. \<not> is_link c" and post: "list_all is_link post"
  shows "takeWhile (\<lambda>c. \<not> is_link c) (pre @ post) = pre"
    and "dropWhile (\<lambda>c. \<not> is_link c) (pre @ post) = post"
  using pre takeWhile_not_link [OF post] dropWhile_not_link [OF post]
  by simp_all

text \<open>
  C5. Take a full-batch run whose listing of the source returns. If the run ends, then in the
  sequence of its requests the node creations that precede the first link creation are
  exactly the creations of all records whose details were fetched, in their order, and from
  the first link creation on there are only link creations: no link, of the hierarchy or of
  a relation, is created before the creation of every fetched record has been attempted.
  With a positive batch size the run does end.
\<close>

theorem links_only_after_all_creates:
  assumes "getAllIssues (redmine_issues w) = Some issues"
  shows "(0 < getBatchSize cfg \<longrightarrow> migrateAllIssues w cfg e \<noteq> None) \<and>
         (\<forall>final. migrateAllIssues w cfg e = Some final \<longrightarrow>
            filter is_create (takeWhile (\<lambda>c. \<not> is_link c) (calls final))
              = map (create_call cfg e) (detailed w issues)
            \<and> list_all is_link (dropWhile (\<lambda>c. \<not> is_link c) (calls final)))"
proof (intro conjI allI impI)
  assume "0 < getBatchSize cfg"
  then show "migrateAllIssues w cfg e \<noteq> None"
    using assms migrate_batches_positive [of "getBatchSize cfg" 0 w cfg e]
    by (simp add: migrateAllIssues_def split: prod.splits)
next
  fix final
  assume run: "migrateAllIssues w cfg e = Some final"
  have "filter is_create (takeWhile (\<lambda>c. \<not> is_link c) (calls final))
              = map (create_call cfg e) (detailed w issues)
        \<and> list_all is_link (dropWhile (\<lambda>c. \<not> is_link c) (calls final))"
  proof (cases "issues = []")
    case True
    with run assms have "final = initial_state"
      by (simp add: migrateAllIssues_def)
    with True show ?thesis by (simp add: initial_state_def detailed_def)
  next
    case False
    obtain ds st1 where d: "foldl (fetch_detail w) ([], initial_state) issues = (ds, st1)"
      by (cases "foldl (fetch_detail w) ([], initial_state) issues")
    then have ds: "ds = detailed w issues" by (simp add: detailed_def)
    from run assms False d obtain st2
      where b: "migrate_batches w cfg e ds (getBatchSize cfg) 0 st1 = Some st2"
        and f: "final = migrateRelations w cfg ds st2"
      by (auto simp: migrateAllIssues_def split: option.splits)
    have c1: "calls st1 = map (\<lambda>i. GetIssue (id' i)) issues"
      using calls_fetch_details [of w "([], initial_state)" issues] d
      by (simp add: initial_state_def)
    obtain ys where ys: "calls st2 = calls st1 @ ys"
        "filter is_create ys = map (create_call cfg e) ds" "filter is_link ys = []"
      using calls_migrate_batch [of w cfg e ds st1] migrate_batches_from_start [OF b] by blast
    obtain zs where zs: "calls final = calls st2 @ zs" "list_all is_link zs"
      using calls_migrateRelations [of w cfg ds st2] f by blast
    have pre: "\<forall>c\<in>set (calls st2). \<not> is_link c"
      using ys c1 by (auto simp: filter_empty_conv is_link_def)
    have "filter is_create (calls st2) = map (create_call cfg e) ds"
      using ys c1 by (simp add: filter_empty_conv is_create_def)
    with phases_of_trace [OF pre zs(2)] zs ds show ?thesis by simp
  qed
  then show "filter is_create (takeWhile (\<lambda>c. \<not> is_link c) (calls final))
              = map (create_call cfg e) (detailed w issues)"
    and "list_all is_link (dropWhile (\<lambda>c. \<not> is_link c) (calls final))"
    by simp_all
qed

lemma family_listed:
  "getAllIssues (redmine_issues family_world) = Some [bare_issue 1, bare_issue 2]"
  unfolding getAllIssues_def
  by (subst fetch_pages.simps) (simp add: family_world_def)

text \<open>C5, witness: the run over a record and its child.\<close>

theorem links_only_after_all_creates_witness:
  "migrateAllIssues family_world bare_config demo_env \<noteq> None \<and>
   filter is_create (takeWhile (\<lambda>c. \<not> is_link c)
       (calls (the (migrateAllIssues family_world bare_config demo_env))))
     = [create_call bare_config demo_env (bare_issue 1),
        create_call bare_config demo_env child_issue] \<and>
   list_all is_link (dropWhile (\<lambda>c. \<not> is_link c)
       (calls (the (migrateAllIssues family_world bare_config demo_env))))"
proof -
  have d: "detailed family_world [bare_issue 1, bare_issue 2] = [bare_issue 1, child_issue]"
    by (simp add: detailed_def fetch_detail_def getIssueDetails_def send_def initial_state_def
          family_world_def)
  have b: "0 < getBatchSize bare_config"
    by (simp add: getBatchSize_def bare_config_def)
  from links_only_after_all_creates [OF family_listed, of bare_config demo_env] b d
  show ?thesis by auto
qed

text \<open>
  The run over a record and its child, end to end: the identity map sends 1 to 501 and 2 to
  502, and the only link is the hierarchy link from 502 to 501.
\<close>

lemma migrateIssue_plain:
  assumes "journals i = None" and "attachments i = None"
    and "ado_post_workitem w (length (calls st)) = Some wid"
  shows "snd (migrateIssue w cfg e i st)
           = \<lparr>issueIdMap = map_set (id' i) wid (issueIdMap st),
              calls = calls st @ [create_call cfg e i]\<rparr>"
  using assms
  by (simp add: migrateIssue_def createWorkItem_def create_call_def send_def
        split: prod.splits)

lemma family_run:
  "map_option issueIdMap (migrateAllIssues family_world bare_config demo_env)
     = Some [(1, 501), (2, 502)] \<and>
   map_option (\<lambda>st. filter is_link (calls st)) (migrateAllIssues family_world bare_config demo_env)
     = Some [PatchRelation 502 501 (Text ''System.LinkTypes.Hierarchy-Reverse'')
               ''Parent-Child relationship from Redmine'']"
proof -
  define st1 :: mstate where "st1 = \<lparr>issueIdMap = [], calls = [GetIssue 1, GetIssue 2]\<rparr>"
  define st2 :: mstate where "st2 = \<lparr>issueIdMap = [(1, 501)],
     calls = [GetIssue 1, GetIssue 2, create_call bare_config demo_env (bare_issue 1)]\<rparr>"
  define st3 :: mstate where "st3 = \<lparr>issueIdMap = [(1, 501), (2, 502)],
     calls = [GetIssue 1, GetIssue 2, create_call bare_config demo_env (bare_issue 1),
              create_call bare_config demo_env child_issue]\<rparr>"
  have b: "0 < getBatchSize bare_config"
    by (simp add: getBatchSize_def bare_config_def)
  have fetch: "foldl (fetch_detail family_world) ([], initial_state) [bare_issue 1, bare_issue 2]
      = ([bare_issue 1, child_issue], st1)"
    by (simp add: fetch_detail_def getIssueDetails_def send_def initial_state_def
          family_world_def st1_def bare_issue_def)
  have m1: "snd (migrateIssue family_world bare_config demo_env (bare_issue 1) st1) = st2"
    by (subst migrateIssue_plain [where wid = 501])
       (simp_all add: st1_def st2_def bare_issue_def family_world_def map_set_def)
  have m2: "snd (migrateIssue family_world bare_config demo_env child_issue st2) = st3"
    by (subst migrateIssue_plain [where wid = 502])
       (simp_all add: st2_def st3_def child_issue_def bare_issue_def family_world_def map_set_def)
  have run: "migrateAllIssues family_world bare_config demo_env
      = Some (migrateRelations family_world bare_config [bare_issue 1, child_issue] st3)"
    using family_listed fetch m1 m2
      migrate_batches_positive [OF b, of 0 family_world bare_config demo_env
        "[bare_issue 1, child_issue]" st1]
    by (simp add: migrateAllIssues_def migrate_batch_def)
  have cc: "\<not> is_link (create_call bare_config demo_env i)" for i
    by (simp add: create_call_def is_link_def split: prod.splits)
  have "migrateRelations family_world bare_config [bare_issue 1, child_issue] st3
      = st3\<lparr>calls := calls st3 @ [PatchRelation 502 501 (Text ''System.LinkTypes.Hierarchy-Reverse'')
               ''Parent-Child relationship from Redmine'']\<rparr>"
    by (simp add: migrateRelations_def migrateIssueRelations_def Let_def map_get_def
          truthy_id_def id_or_def getParentId_def shouldMigrateSubtasks_def
          shouldMigrateRelations_def option_field_def createLink_def send_def
          st3_def child_issue_def bare_issue_def bare_config_def family_world_def)
  with run cc show ?thesis
    by (simp add: st3_def is_link_def)
qed

end
